theory Spec2Isabelle
  imports Main "HOL-Library.Sublist" "HOL-Library.Monad_Syntax"
begin

section \<open>Bytes and strings\<close>


definition upperByte :: "char \<Rightarrow> char" where
  "upperByte a = (let n = (of_char a :: nat) in if 97 \<le> n \<and> n \<le> 122 then char_of (n - 32) else a)"


definition ToUpper :: "string \<Rightarrow> string" where
  "ToUpper s = map upperByte s"

fun HasPrefix :: "string \<Rightarrow> string \<Rightarrow> bool" where
  "HasPrefix s [] = True"
| "HasPrefix [] (p # ps) = False"
| "HasPrefix (c # cs) (p # ps) = (c = p \<and> HasPrefix cs ps)"

fun Contains :: "string \<Rightarrow> string \<Rightarrow> bool" where
  "Contains [] substr = (substr = [])"
| "Contains (c # cs) substr = (HasPrefix (c # cs) substr \<or> Contains cs substr)"





section \<open>The local store: timestamps\<close>

definition isDigit :: "char \<Rightarrow> bool" where
  \<comment> \<open>\<open>\d\<close>\<close>
  "isDigit c = (let n = (of_char c :: nat) in 48 \<le> n \<and> n \<le> 57)"

definition isSpace :: "char \<Rightarrow> bool" where
  \<comment> \<open>\<open>\s\<close>: tab, line feed, form feed, carriage return, space\<close>
  "isSpace c = (of_char c \<in> {9, 10, 12, 13, 32 :: nat})"

definition isWord :: "char \<Rightarrow> bool" where
  \<comment> \<open>\<open>\w\<close>: \<open>[0-9A-Za-z_]\<close>\<close>
  "isWord c = (let n = (of_char c :: nat) in
     (48 \<le> n \<and> n \<le> 57) \<or> (65 \<le> n \<and> n \<le> 90) \<or> (97 \<le> n \<and> n \<le> 122) \<or> n = 95)"

text \<open>
  The pieces of the pattern
  \<^verbatim>\<open>^(\d{1,2})\s+(\w{3})\s+(\d{4}),\s+(\d{1,2}):(\d{2})(AM|PM)$\<close>.
  Each piece consumes a prefix of the input and returns the rest. Neighbouring pieces have
  disjoint first characters, so the greedy choice is the only one that can match.
\<close>

definition reClassN :: "(char \<Rightarrow> bool) \<Rightarrow> nat \<Rightarrow> string \<Rightarrow> (string \<times> string) option" where
  \<comment> \<open>\<open>c{n}\<close>: exactly \<open>n\<close> characters of the class\<close>
  "reClassN cls n s =
     (if n \<le> length s \<and> list_all cls (take n s) then Some (take n s, drop n s) else None)"

definition reDigits12 :: "string \<Rightarrow> (string \<times> string) option" where
  \<comment> \<open>\<open>\d{1,2}\<close>, greedy\<close>
  "reDigits12 s =
     (let d = takeWhile isDigit (take 2 s) in
      if d = [] then None else Some (d, drop (length d) s))"

definition reSpaces :: "string \<Rightarrow> string option" where
  \<comment> \<open>\<open>\s+\<close>, greedy\<close>
  "reSpaces s = (if takeWhile isSpace s = [] then None else Some (dropWhile isSpace s))"

definition reLit :: "char \<Rightarrow> string \<Rightarrow> string option" where
  "reLit c s = (case s of [] \<Rightarrow> None | x # r \<Rightarrow> if x = c then Some r else None)"

definition reAmPm :: "string \<Rightarrow> (string \<times> string) option" where
  \<comment> \<open>\<open>(AM|PM)\<close>\<close>
  "reAmPm s =
     (if take 2 s = ''AM'' \<or> take 2 s = ''PM'' then Some (take 2 s, drop 2 s) else None)"

definition FindStringSubmatch ::
  "string \<Rightarrow> (string \<times> string \<times> string \<times> string \<times> string \<times> string) option" where
  \<comment> \<open>\<open>re.FindStringSubmatch(dateStr)\<close>: the six groups, or \<open>None\<close> for \<open>nil\<close>\<close>
  "FindStringSubmatch s = do {
     (day, r1) \<leftarrow> reDigits12 s;
     r2 \<leftarrow> reSpaces r1;
     (mon, r3) \<leftarrow> reClassN isWord 3 r2;
     r4 \<leftarrow> reSpaces r3;
     (year, r5) \<leftarrow> reClassN isDigit 4 r4;
     r6 \<leftarrow> reLit (CHR '','') r5;
     r7 \<leftarrow> reSpaces r6;
     (hourStr, r8) \<leftarrow> reDigits12 r7;
     r9 \<leftarrow> reLit (CHR '':'') r8;
     (mi, r10) \<leftarrow> reClassN isDigit 2 r9;
     (ampm, r11) \<leftarrow> reAmPm r10;
     if r11 = [] then Some (day, mon, year, hourStr, mi, ampm) else None
   }"

definition months :: "string \<rightharpoonup> string" where
  "months = map_of
     [(''Jan'', ''01''), (''Feb'', ''02''), (''Mar'', ''03''), (''Apr'', ''04''),
      (''May'', ''05''), (''Jun'', ''06''), (''Jul'', ''07''), (''Aug'', ''08''),
      (''Sep'', ''09''), (''Oct'', ''10''), (''Nov'', ''11''), (''Dec'', ''12'')]"

definition digitVal :: "char \<Rightarrow> nat" where
  "digitVal c = of_char c - 48"

definition Atoi :: "string \<Rightarrow> nat" where
  \<comment> \<open>\<open>strconv.Atoi\<close> on the one or two decimal digits the pattern hands it\<close>
  "Atoi ds = foldl (\<lambda>a c. 10 * a + digitVal c) 0 ds"

fun Itoa :: "nat \<Rightarrow> string" where
  "Itoa n = (if n < 10 then [char_of (48 + n)] else Itoa (n div 10) @ [char_of (48 + n mod 10)])"

definition padZero2 :: "string \<Rightarrow> string" where
  \<comment> \<open>width 2 with the \<open>0\<close> flag, as \<open>fmt\<close> pads both \<open>%02s\<close> and \<open>%02d\<close> (no sign here)\<close>
  "padZero2 s = replicate (2 - length s) (CHR ''0'') @ s"

fun ReplaceAll_spaceT :: "string \<Rightarrow> string" where
  \<comment> \<open>\<open>strings.ReplaceAll(result, " T", "T")\<close>\<close>
  "ReplaceAll_spaceT (a # b # cs) =
     (if a = CHR '' '' \<and> b = CHR ''T'' then CHR ''T'' # ReplaceAll_spaceT cs
      else a # ReplaceAll_spaceT (b # cs))"
| "ReplaceAll_spaceT cs = cs"

definition hour24 :: "string \<Rightarrow> nat \<Rightarrow> nat" where
  \<comment> \<open>the two \<open>if\<close>s on \<open>hour\<close>, in the order of the source\<close>
  "hour24 ampm hour =
     (let hour = (if ampm = ''PM'' \<and> hour \<noteq> 12 then hour + 12 else hour);
          hour = (if ampm = ''AM'' \<and> hour = 12 then 0 else hour)
      in hour)"

definition ParseApiDate :: "string \<Rightarrow> string option" where
  "ParseApiDate dateStr =
     (if dateStr = [] then None
      else case FindStringSubmatch dateStr of
        None \<Rightarrow> None
      | Some (day, mon, year, hourStr, mi, m6) \<Rightarrow>
          (let ampm = ToUpper m6 in
           case months mon of
             None \<Rightarrow> None
           | Some monthNum \<Rightarrow>
               (let hour = hour24 ampm (Atoi hourStr);
                    result = year @ ''-'' @ monthNum @ ''-'' @ padZero2 day @ '' T''
                             @ padZero2 (Itoa hour) @ '':'' @ mi @ '':00.000Z''
                in Some (ReplaceAll_spaceT result))))"

text \<open>
  The input format the pattern describes, piece by piece: \<open>api_date_text\<close> is the input
  text built from a day, a month word, a year, an hour, a minute and a meridiem with the
  white space between them, and \<open>api_date_shape\<close> says that each piece is in its character
  class and has its length. \<open>iso_text\<close> is the layout \<open>YYYY-MM-DDTHH:MM:00.000Z\<close> of the
  result, with day and hour padded to two digits.
\<close>

definition api_date_shape where
  "api_date_shape day ws1 mon ws2 year ws3 hh mi ap =
     (day \<noteq> [] \<and> length day \<le> 2 \<and> list_all isDigit day \<and>
      ws1 \<noteq> [] \<and> list_all isSpace ws1 \<and>
      length mon = 3 \<and> list_all isWord mon \<and>
      ws2 \<noteq> [] \<and> list_all isSpace ws2 \<and>
      length year = 4 \<and> list_all isDigit year \<and>
      ws3 \<noteq> [] \<and> list_all isSpace ws3 \<and>
      hh \<noteq> [] \<and> length hh \<le> 2 \<and> list_all isDigit hh \<and>
      length mi = 2 \<and> list_all isDigit mi \<and>
      (ap = ''AM'' \<or> ap = ''PM''))"

definition api_date_text where
  "api_date_text day ws1 mon ws2 year ws3 hh mi ap =
     (day :: string) @ ws1 @ mon @ ws2 @ year @ '','' @ ws3 @ hh @ '':'' @ mi @ ap"

definition iso_text :: "string \<Rightarrow> string \<Rightarrow> string \<Rightarrow> nat \<Rightarrow> string \<Rightarrow> string" where
  "iso_text year monthNum day hour mi =
     year @ ''-'' @ monthNum @ ''-'' @ padZero2 day @ ''T'' @ padZero2 (Itoa hour) @ '':''
       @ mi @ '':00.000Z''"

section \<open>The local store: tables and writes\<close>

text \<open>
  \<open>db.StoryRow\<close> and \<open>db.CommentRow\<close>, the arguments of the two upserts (fields prefixed
  \<open>sr_\<close> and \<open>cr_\<close>); a Go pointer field is an \<open>option\<close>.
\<close>

record StoryRow =
  sr_ID :: int
  sr_ProjectID :: int
  sr_Title :: string
  sr_Description :: "string option"
  sr_StoryType :: "string option"
  sr_CurrentState :: "string option"
  sr_Estimate :: "int option"
  sr_Priority :: "string option"
  sr_URL :: "string option"
  sr_RequestedByID :: "int option"
  sr_OwnerNames :: "string option"
  sr_LabelNames :: "string option"
  sr_IsMine :: bool
  sr_MentionsMe :: bool
  sr_CreatedAt :: string
  sr_UpdatedAt :: string

record CommentRow =
  cr_ID :: int
  cr_StoryID :: int
  cr_ProjectID :: int
  cr_Text :: "string option"
  cr_PersonID :: "int option"
  cr_PersonName :: "string option"
  cr_MentionsMe :: bool
  cr_CreatedAt :: string

text \<open>
  A row of table \<open>stories\<close> and a row of table \<open>comments\<close>, column by column as
  \<open>createTables\<close> declares them (prefixes \<open>st_\<close> and \<open>cm_\<close>). A nullable column is an
  \<open>option\<close>; a \<open>TIMESTAMP\<close> value is kept as the text it was cast from.
\<close>

record story =
  st_id :: int
  st_project_id :: int
  st_title :: string
  st_description :: "string option"
  st_story_type :: "string option"
  st_current_state :: "string option"
  st_estimate :: "int option"
  st_priority :: "string option"
  st_url :: "string option"
  st_requested_by_id :: "int option"
  st_owner_names :: "string option"
  st_label_names :: "string option"
  st_is_mine :: bool
  st_mentions_me :: bool
  st_created_at :: "string option"
  st_updated_at :: "string option"
  st_synced_at :: string

record comment =
  cm_id :: int
  cm_story_id :: int
  cm_project_id :: int
  cm_text :: "string option"
  cm_person_id :: "int option"
  cm_person_name :: "string option"
  cm_mentions_me :: bool
  cm_created_at :: "string option"
  cm_synced_at :: string

text \<open>
  The store behind \<open>conn\<close>: the two tables as row lists in insertion order, and the number
  of statements executed so far. What the program does not decide is read from \<open>dbenv\<close>:
  the clock reading taken for the \<open>n\<close>-th statement, whether the driver fails the \<open>n\<close>-th
  statement (the table is then left as it was), and DuckDB's cast of a text to
  \<open>TIMESTAMP\<close> (\<open>None\<close> where \<open>TRY_CAST\<close> gives \<open>NULL\<close>).
\<close>

record db =
  stories :: "story list"
  comments :: "comment list"
  execs :: nat

record dbenv =
  now_at :: "nat \<Rightarrow> string"
  exec_fails :: "nat \<Rightarrow> bool"
  cast_timestamp :: "string \<Rightarrow> string option"

datatype db_error = DriverError | NotNullViolation

definition TRY_CAST :: "dbenv \<Rightarrow> string option \<Rightarrow> string option" where
  \<comment> \<open>\<open>TRY_CAST(? AS TIMESTAMP)\<close>; the parameter is what \<open>ptrOrNil\<close> binds, \<open>None\<close> for \<open>NULL\<close>\<close>
  "TRY_CAST env p = (case p of None \<Rightarrow> None | Some x \<Rightarrow> cast_timestamp env x)"

definition story_conflict_update :: "story \<Rightarrow> story \<Rightarrow> story" where
  \<comment> \<open>the \<open>DO UPDATE SET\<close> list of \<open>UpsertStory\<close>: \<open>old\<close> is the row in the table, \<open>excluded\<close> the
      row proposed for insertion\<close>
  "story_conflict_update old excluded = old
     \<lparr> st_title := st_title excluded,
       st_description := st_description excluded,
       st_story_type := st_story_type excluded,
       st_current_state := st_current_state excluded,
       st_estimate := st_estimate excluded,
       st_priority := st_priority excluded,
       st_url := st_url excluded,
       st_requested_by_id := st_requested_by_id excluded,
       st_owner_names := st_owner_names excluded,
       st_label_names := st_label_names excluded,
       st_is_mine := st_is_mine excluded,
       st_mentions_me := (if st_mentions_me excluded then True else st_mentions_me old),
       st_created_at := st_created_at excluded,
       st_updated_at := st_updated_at excluded,
       st_synced_at := st_synced_at excluded \<rparr>"

definition comment_conflict_update :: "comment \<Rightarrow> comment \<Rightarrow> comment" where
  \<comment> \<open>the \<open>DO UPDATE SET\<close> list of \<open>UpsertComment\<close>\<close>
  "comment_conflict_update old excluded = old
     \<lparr> cm_text := cm_text excluded,
       cm_person_id := cm_person_id excluded,
       cm_person_name := cm_person_name excluded,
       cm_mentions_me := (if cm_mentions_me excluded then True else cm_mentions_me old),
       cm_synced_at := cm_synced_at excluded \<rparr>"

definition insert_on_conflict ::
  "('r \<Rightarrow> int) \<Rightarrow> ('r \<Rightarrow> 'r \<Rightarrow> 'r) \<Rightarrow> 'r \<Rightarrow> 'r list \<Rightarrow> 'r list" where
  \<comment> \<open>\<open>INSERT ... ON CONFLICT(id) DO UPDATE SET ...\<close> with key column \<open>key\<close>\<close>
  "insert_on_conflict key upd excluded tbl =
     (if list_ex (\<lambda>r. key r = key excluded) tbl
      then map (\<lambda>r. if key r = key excluded then upd r excluded else r) tbl
      else tbl @ [excluded])"

definition story_values :: "dbenv \<Rightarrow> StoryRow \<Rightarrow> string \<Rightarrow> story" where
  \<comment> \<open>the \<open>VALUES\<close> row of \<open>UpsertStory\<close> (\<open>excluded\<close> in its conflict clause); \<open>synced\<close> is the
      cast of \<open>now\<close>\<close>
  "story_values env s synced =
     \<lparr> st_id = sr_ID s, st_project_id = sr_ProjectID s, st_title = sr_Title s,
       st_description = sr_Description s, st_story_type = sr_StoryType s,
       st_current_state = sr_CurrentState s, st_estimate = sr_Estimate s,
       st_priority = sr_Priority s, st_url = sr_URL s,
       st_requested_by_id = sr_RequestedByID s,
       st_owner_names = sr_OwnerNames s, st_label_names = sr_LabelNames s,
       st_is_mine = sr_IsMine s, st_mentions_me = sr_MentionsMe s,
       st_created_at = TRY_CAST env (ParseApiDate (sr_CreatedAt s)),
       st_updated_at = TRY_CAST env (ParseApiDate (sr_UpdatedAt s)),
       st_synced_at = synced \<rparr>"

definition comment_values :: "dbenv \<Rightarrow> CommentRow \<Rightarrow> string \<Rightarrow> comment" where
  \<comment> \<open>the \<open>VALUES\<close> row of \<open>UpsertComment\<close>\<close>
  "comment_values env c synced =
     \<lparr> cm_id = cr_ID c, cm_story_id = cr_StoryID c,
       cm_project_id = cr_ProjectID c, cm_text = cr_Text c,
       cm_person_id = cr_PersonID c, cm_person_name = cr_PersonName c,
       cm_mentions_me = cr_MentionsMe c,
       cm_created_at = TRY_CAST env (ParseApiDate (cr_CreatedAt c)),
       cm_synced_at = synced \<rparr>"

definition UpsertStory :: "dbenv \<Rightarrow> StoryRow \<Rightarrow> db \<Rightarrow> db_error option \<times> db" where
  \<comment> \<open>\<open>synced_at\<close> is \<open>NOT NULL\<close>: a \<open>now\<close> that does not cast fails the statement\<close>
  "UpsertStory env s d =
     (let now = now_at env (execs d);
          d' = d\<lparr>execs := execs d + 1\<rparr>
      in if exec_fails env (execs d) then (Some DriverError, d')
         else case TRY_CAST env (Some now) of
           None \<Rightarrow> (Some NotNullViolation, d')
         | Some synced \<Rightarrow>
             (None, d'\<lparr>stories := insert_on_conflict st_id story_conflict_update
                                     (story_values env s synced) (stories d)\<rparr>))"

definition UpsertComment :: "dbenv \<Rightarrow> CommentRow \<Rightarrow> db \<Rightarrow> db_error option \<times> db" where
  "UpsertComment env c d =
     (let now = now_at env (execs d);
          d' = d\<lparr>execs := execs d + 1\<rparr>
      in if exec_fails env (execs d) then (Some DriverError, d')
         else case TRY_CAST env (Some now) of
           None \<Rightarrow> (Some NotNullViolation, d')
         | Some synced \<Rightarrow>
             (None, d'\<lparr>comments := insert_on_conflict cm_id comment_conflict_update
                                      (comment_values env c synced) (comments d)\<rparr>))"

definition MarkStoryMentionsMe :: "dbenv \<Rightarrow> int \<Rightarrow> db \<Rightarrow> db_error option \<times> db" where
  \<comment> \<open>\<open>UPDATE stories SET mentions_me = true WHERE id = ?\<close>\<close>
  "MarkStoryMentionsMe env storyID d =
     (let d' = d\<lparr>execs := execs d + 1\<rparr>
      in if exec_fails env (execs d) then (Some DriverError, d')
         else (None, d'\<lparr>stories :=
                 map (\<lambda>r. if st_id r = storyID then r\<lparr>st_mentions_me := True\<rparr> else r)
                   (stories d)\<rparr>))"

text \<open>A sequence of calls on the store's story table, run in order; errors are dropped.\<close>

datatype store_call = CallUpsertStory StoryRow | CallMarkStoryMentionsMe int

fun run_call :: "dbenv \<Rightarrow> store_call \<Rightarrow> db \<Rightarrow> db" where
  "run_call env (CallUpsertStory s) d = snd (UpsertStory env s d)"
| "run_call env (CallMarkStoryMentionsMe k) d = snd (MarkStoryMentionsMe env k d)"

definition run_calls :: "dbenv \<Rightarrow> store_call list \<Rightarrow> db \<Rightarrow> db" where
  "run_calls env calls d = foldl (\<lambda>d c. run_call env c d) d calls"

definition story_rows :: "int \<Rightarrow> db \<Rightarrow> story list" where
  \<comment> \<open>\<open>SELECT * FROM stories WHERE id = ?\<close>\<close>
  "story_rows k d = filter (\<lambda>r. st_id r = k) (stories d)"

definition comment_rows :: "int \<Rightarrow> db \<Rightarrow> comment list" where
  \<comment> \<open>\<open>SELECT * FROM comments WHERE id = ?\<close>\<close>
  "comment_rows k d = filter (\<lambda>r. cm_id r = k) (comments d)"

definition primary_keys_ok :: "db \<Rightarrow> bool" where
  \<comment> \<open>\<open>id INTEGER PRIMARY KEY\<close> on both tables: no two rows share an id\<close>
  "primary_keys_ok d = (distinct (map st_id (stories d)) \<and> distinct (map cm_id (comments d)))"

definition story_flagged :: "int \<Rightarrow> db \<Rightarrow> bool" where
  \<comment> \<open>story \<open>k\<close> is in the table and \<open>mentions_me\<close> is true in every row of that id\<close>
  "story_flagged k d = (story_rows k d \<noteq> [] \<and> list_all st_mentions_me (story_rows k d))"

definition comment_flagged :: "int \<Rightarrow> db \<Rightarrow> bool" where
  \<comment> \<open>comment \<open>k\<close> is in the table and \<open>mentions_me\<close> is true in every row of that id\<close>
  "comment_flagged k d = (comment_rows k d \<noteq> [] \<and> list_all cm_mentions_me (comment_rows k d))"


section \<open>Configuration and the types of the remote API\<close>

record Config =
  Token :: string
  BaseURL :: string
  WebURL :: string
  Username :: string
  Email :: string
  Password :: string
  ProjectIDs :: "int list"
  UserID :: int
  PollIntervalMs :: int
  DataDir :: string
  ProjectDir :: string

text \<open>
  The structs of \<open>api/types.go\<close> the engine reads. Fields carry a prefix per struct:
  \<open>p_\<close> \<open>Person\<close>, \<open>o_\<close> \<open>StoryOwner\<close>, \<open>l_\<close> \<open>Label\<close>, \<open>s_\<close> \<open>Story\<close>, \<open>c_\<close> \<open>Comment\<close>.
\<close>

record Person =
  p_ID :: int
  p_Name :: string
  p_Initials :: string
  p_Kind :: string

record StoryOwner =
  o_ID :: int
  o_UserID :: int
  o_Name :: string
  o_Initials :: string

record Label =
  l_ID :: int
  l_Name :: string
  l_Kind :: string

record Story =
  s_ID :: int
  s_Title :: string
  s_Description :: string
  s_StoryType :: string
  s_CurrentState :: string
  s_Estimate :: "int option"
  s_StoryPriority :: string
  s_Labels :: "Label list"
  s_OwnerIDs :: "int list"
  s_Owners :: "StoryOwner list"
  s_RequestedByID :: "int option"
  s_CreatedAt :: string
  s_UpdatedAt :: string
  s_URL :: string
  s_ProjectID :: "int option"

record Comment =
  c_ID :: int
  c_Text :: string
  c_PersonID :: int
  c_Person :: "Person option"
  c_CreatedAt :: string
  c_UpdatedAt :: string

section \<open>The sync engine\<close>







fun Join :: "string list \<Rightarrow> string \<Rightarrow> string" where
  "Join [] sep = []"
| "Join [x] sep = x"
| "Join (x # y # ys) sep = x @ sep @ Join (y # ys) sep"

definition nonEmpty :: "string \<Rightarrow> string option" where
  \<comment> \<open>\<open>if s != "" { row.F = &s }\<close>\<close>
  "nonEmpty s = (if s \<noteq> [] then Some s else None)"


definition map_index :: "(int \<times> bool) list \<Rightarrow> int \<Rightarrow> bool" where
  "map_index m k = (case map_of m k of None \<Rightarrow> False | Some b \<Rightarrow> b)"

definition storyRowOf :: "(int \<times> bool) list \<Rightarrow> int \<Rightarrow> Story \<Rightarrow> StoryRow" where
  \<comment> \<open>the row the upsert loop builds for story \<open>s\<close>\<close>
  "storyRowOf myStoryIDs projectID s =
     (let isMine = map_index myStoryIDs (s_ID s);
          ownerNames = map o_Name (s_Owners s);
          labelNames = map l_Name (s_Labels s)
      in \<lparr> sr_ID = s_ID s, sr_ProjectID = projectID, sr_Title = s_Title s,
           sr_Description = nonEmpty (s_Description s),
           sr_StoryType = nonEmpty (s_StoryType s),
           sr_CurrentState = nonEmpty (s_CurrentState s),
           sr_Estimate = s_Estimate s,
           sr_Priority = nonEmpty (s_StoryPriority s),
           sr_URL = nonEmpty (s_URL s),
           sr_RequestedByID = s_RequestedByID s,
           sr_OwnerNames = (if length ownerNames > 0 then Some (Join ownerNames '', '') else None),
           sr_LabelNames = (if length labelNames > 0 then Some (Join labelNames '', '') else None),
           sr_IsMine = isMine, sr_MentionsMe = False,
           sr_CreatedAt = s_CreatedAt s, sr_UpdatedAt = s_UpdatedAt s \<rparr>)"

definition commentRowOf :: "int \<Rightarrow> Story \<Rightarrow> Comment \<Rightarrow> bool \<Rightarrow> CommentRow" where
  \<comment> \<open>the row the comment loop builds for comment \<open>c\<close> of story \<open>s\<close>\<close>
  "commentRowOf projectID s c mentions =
     \<lparr> cr_ID = c_ID c, cr_StoryID = s_ID s, cr_ProjectID = projectID,
       cr_Text = nonEmpty (c_Text c),
       cr_PersonID = (if c_PersonID c \<noteq> 0 then Some (c_PersonID c) else None),
       cr_PersonName = (case c_Person c of None \<Rightarrow> None | Some p \<Rightarrow> nonEmpty (p_Name p)),
       cr_MentionsMe = mentions, cr_CreatedAt = c_CreatedAt c \<rparr>"







section \<open>The poll and notify loop\<close>

text \<open>
  \<open>Activity\<close> and its parts (prefixes \<open>a_\<close>, \<open>ch_\<close>, \<open>r_\<close>). \<open>NewValues\<close> is a
  \<open>map[string]any\<close>; its values are of a type \<open>'v\<close> that stays open, \<open>None\<close> is the nil map.
\<close>

record 'v ActivityChange =
  ch_Kind :: string
  ch_ID :: int
  ch_ChangeType :: string
  ch_NewValues :: "'v option"

record ActivityResource =
  r_Kind :: string
  r_ID :: int
  r_Name :: string
  r_StoryType :: string
  r_URL :: string

record 'v Activity =
  a_Kind :: string
  a_GUID :: string
  a_Message :: string
  a_PerformedBy :: Person
  a_OccurredAt :: string
  a_Changes :: "'v ActivityChange list"
  a_PrimaryResources :: "ActivityResource list"

record pollState =
  LastPoll :: string

text \<open>
  What one cycle reads from outside: the clock at its start (already formatted), the
  outcome of \<open>api.GetProjectActivity(pid, since)\<close>, \<open>json.Marshal\<close> on a \<open>NewValues\<close> map (as
  text; the empty text when it fails), \<open>json.MarshalIndent\<close> on the poll state, and what
  \<open>os.WriteFile\<close> does to the state file.
\<close>

datatype write_outcome =
    Written
  | WriteFailed "string option"  \<comment> \<open>the content the failed call leaves at the path\<close>

record 'v poll_env =
  pe_now :: string
  pe_GetProjectActivity :: "int \<Rightarrow> string \<Rightarrow> string + 'v Activity list"
  pe_Marshal :: "'v \<Rightarrow> string"
  pe_MarshalIndent :: "pollState \<Rightarrow> string"
  pe_WriteFile :: write_outcome

text \<open>
  What the daemon does to the outside: the content of \<open>poll-state.json\<close> (\<open>None\<close> when
  there is no such file), the calls of \<open>notify.Send\<close> as (title, message) in order, and
  the calls of \<open>api.GetProjectActivity\<close> as (project, occurred-after) in order.
\<close>

record daemon_world =
  poll_state_file :: "string option"
  notifications :: "(string \<times> string) list"
  activity_requests :: "(int \<times> string) list"


definition savePollState :: "'v poll_env \<Rightarrow> pollState \<Rightarrow> daemon_world \<Rightarrow> daemon_world" where
  \<comment> \<open>the error of \<open>os.WriteFile\<close> is discarded\<close>
  "savePollState env s w =
     (let data = pe_MarshalIndent env s
      in case pe_WriteFile env of
           Written \<Rightarrow> w\<lparr>poll_state_file := Some data\<rparr>
         | WriteFailed left \<Rightarrow> w\<lparr>poll_state_file := left\<rparr>)"








section \<open>The session client for writes\<close>

text \<open>
  Every HTTP request the write path sends, with the data the properties speak about;
  \<open>GetStoryV5\<close> is the read-only token client's \<open>GetStory\<close>, the others go through the
  cookie-bearing client.
\<close>

datatype request =
    GetLoginPage
  | PostLogin string string string  \<comment> \<open>CSRF token, email, password\<close>
  | PostCommentReq int string       \<comment> \<open>story id, text\<close>
  | PostLabelReq int int string     \<comment> \<open>story id, project id, label name\<close>
  | GetStoryV5 int int              \<comment> \<open>project id, story id\<close>
  | PutOwners int "int list"        \<comment> \<open>story id, the whole list \<open>owner_ids\<close>\<close>

datatype response =
    TransportError string           \<comment> \<open>\<open>client.Do\<close> returned an error with this message\<close>
  | HttpResponse nat string         \<comment> \<open>status code and body\<close>

text \<open>
  The session state is \<open>loggedIn\<close>; \<open>sent\<close> records the requests sent so far, in order. The
  server and the library are read from \<open>web_env\<close>: the answer to the \<open>n\<close>-th request sent,
  the error of \<open>http.NewRequest\<close> if it has one, the status line of a status code, the
  first group of \<open>csrfRegex\<close> in a page, and the JSON decoders of the response bodies
  (\<open>None\<close> where \<open>json.Unmarshal\<close> fails; for the story, \<open>Inl\<close> the decoder's error message).
\<close>

record web_world =
  loggedIn :: bool
  sent :: "request list"

record web_env =
  we_respond :: "nat \<Rightarrow> request \<Rightarrow> response"
  we_NewRequest :: "request \<Rightarrow> string option"
  we_Status :: "nat \<Rightarrow> string"
  we_csrf :: "string \<Rightarrow> string option"
  we_decodeStory :: "string \<Rightarrow> string + Story"
  we_decodeComment :: "string \<Rightarrow> Comment option"
  we_decodeLabel :: "string \<Rightarrow> Label option"
  we_decodeOwners :: "string \<Rightarrow> StoryOwner list"

definition Do :: "web_env \<Rightarrow> request \<Rightarrow> web_world \<Rightarrow> response \<times> web_world" where
  \<comment> \<open>\<open>client.Do(req)\<close>\<close>
  "Do env rq w = (we_respond env (length (sent w)) rq, w\<lparr>sent := sent w @ [rq]\<rparr>)"

definition ensureLoggedIn :: "Config \<Rightarrow> web_env \<Rightarrow> web_world \<Rightarrow> string option \<times> web_world" where
  \<comment> \<open>the result is the error message, \<open>None\<close> for \<open>nil\<close>\<close>
  "ensureLoggedIn cfg env w =
     (if loggedIn w then (None, w)
      else if Email cfg = [] \<or> Password cfg = [] then
        (Some (''LITETRACKER_EMAIL and LITETRACKER_PASSWORD must be set in ~/litetracker-go/.env ''
               @ ''for posting comments (LiteTracker API does not support comment creation)''), w)
      else case Do env GetLoginPage w of
        (TransportError e, w1) \<Rightarrow> (Some (''fetch login page: '' @ e), w1)
      | (HttpResponse st body, w1) \<Rightarrow>
          (case we_csrf env body of
             None \<Rightarrow> (Some ''could not find CSRF token on login page'', w1)
           | Some csrfToken \<Rightarrow>
               (case we_NewRequest env (PostLogin csrfToken (Email cfg) (Password cfg)) of
                  Some e \<Rightarrow> (Some (''build login request: '' @ e), w1)
                | None \<Rightarrow>
                    (case Do env (PostLogin csrfToken (Email cfg) (Password cfg)) w1 of
                       (TransportError e, w2) \<Rightarrow> (Some (''login request: '' @ e), w2)
                     | (HttpResponse st2 body2, w2) \<Rightarrow>
                         if st2 = 422 \<or> st2 = 401 then
                           (Some (''login failed (status '' @ Itoa st2 @ ''): check ''
                                  @ ''LITETRACKER_EMAIL and LITETRACKER_PASSWORD in ''
                                  @ ''~/litetracker-go/.env''), w2)
                         else (None, w2\<lparr>loggedIn := True\<rparr>)))))"

definition postComment ::
  "Config \<Rightarrow> web_env \<Rightarrow> int \<Rightarrow> string \<Rightarrow> web_world \<Rightarrow> (string + Comment) \<times> web_world" where
  "postComment cfg env storyID text w =
     (case we_NewRequest env (PostCommentReq storyID text) of
        Some e \<Rightarrow> (Inl (''build comment request: '' @ e), w)
      | None \<Rightarrow>
          (case Do env (PostCommentReq storyID text) w of
             (TransportError e, w1) \<Rightarrow> (Inl (''post comment: '' @ e), w1)
           | (HttpResponse st body, w1) \<Rightarrow>
               if st \<ge> 400 then
                 (Inl (''post comment failed (status '' @ Itoa st @ ''): '' @ body), w1)
               else (case we_decodeComment env body of
                       None \<Rightarrow> (Inr \<lparr> c_ID = 0, c_Text = text, c_PersonID = 0, c_Person = None,
                                       c_CreatedAt = [], c_UpdatedAt = [] \<rparr>, w1)
                     | Some result \<Rightarrow> (Inr result, w1))))"

definition addLabel ::
  "Config \<Rightarrow> web_env \<Rightarrow> int \<Rightarrow> int \<Rightarrow> string \<Rightarrow> web_world \<Rightarrow> (string + Label) \<times> web_world" where
  "addLabel cfg env storyID projectID name w =
     (case we_NewRequest env (PostLabelReq storyID projectID name) of
        Some e \<Rightarrow> (Inl (''build label request: '' @ e), w)
      | None \<Rightarrow>
          (case Do env (PostLabelReq storyID projectID name) w of
             (TransportError e, w1) \<Rightarrow> (Inl (''add label: '' @ e), w1)
           | (HttpResponse st body, w1) \<Rightarrow>
               if st \<ge> 400 then
                 (Inl (''add label failed (status '' @ Itoa st @ ''): '' @ body), w1)
               else (case we_decodeLabel env body of
                       None \<Rightarrow> (Inr \<lparr> l_ID = 0, l_Name = name, l_Kind = [] \<rparr>, w1)
                     | Some result \<Rightarrow> (Inr result, w1))))"

definition GetStory ::
  "web_env \<Rightarrow> int \<Rightarrow> int \<Rightarrow> web_world \<Rightarrow> (string + Story) \<times> web_world" where
  \<comment> \<open>\<open>api.GetStory\<close> through \<open>request\<close> and \<open>decode\<close>; the dash of the message is the three
      bytes of U+2014\<close>
  "GetStory env projectID storyID w =
     (case we_NewRequest env (GetStoryV5 projectID storyID) of
        Some e \<Rightarrow> (Inl e, w)
      | None \<Rightarrow>
          (case Do env (GetStoryV5 projectID storyID) w of
             (TransportError e, w1) \<Rightarrow> (Inl e, w1)
           | (HttpResponse st body, w1) \<Rightarrow>
               if st \<ge> 400 then
                 (Inl (''LiteTracker API '' @ Itoa st @ '': '' @ we_Status env st @ '' ''
                       @ [CHR 0xE2, CHR 0x80, CHR 0x94] @ '' '' @ body), w1)
               else (case we_decodeStory env body of
                       Inl e \<Rightarrow> (Inl (''decode response: '' @ e), w1)
                     | Inr story \<Rightarrow> (Inr story, w1))))"

fun owner_ids_loop :: "int \<Rightarrow> StoryOwner list \<Rightarrow> int list \<Rightarrow> int list option" where
  \<comment> \<open>the loop over \<open>story.Owners\<close>: \<open>None\<close> is the early return "already an owner", else
      the list \<open>ids\<close> after the loop\<close>
  "owner_ids_loop ownerID [] ids = Some ids"
| "owner_ids_loop ownerID (o1 # os) ids =
     (if o_UserID o1 = ownerID then None
      else owner_ids_loop ownerID os (ids @ [o_UserID o1]))"

definition addOwner ::
  "Config \<Rightarrow> web_env \<Rightarrow> int \<Rightarrow> int \<Rightarrow> int \<Rightarrow> web_world
     \<Rightarrow> (string + StoryOwner list) \<times> web_world" where
  "addOwner cfg env storyID projectID ownerID w =
     (case GetStory env projectID storyID w of
        (Inl e, w1) \<Rightarrow> (Inl (''fetch story owners: '' @ e), w1)
      | (Inr story, w1) \<Rightarrow>
          (case owner_ids_loop ownerID (s_Owners story) [] of
             None \<Rightarrow> (Inr (s_Owners story), w1)
           | Some ids0 \<Rightarrow>
               (let ids = ids0 @ [ownerID] in
                case we_NewRequest env (PutOwners storyID ids) of
                  Some e \<Rightarrow> (Inl (''build owner request: '' @ e), w1)
                | None \<Rightarrow>
                    (case Do env (PutOwners storyID ids) w1 of
                       (TransportError e, w2) \<Rightarrow> (Inl (''add owner: '' @ e), w2)
                     | (HttpResponse st body, w2) \<Rightarrow>
                         if st \<ge> 400 then
                           (Inl (''add owner failed (status '' @ Itoa st @ ''): '' @ body), w2)
                         else (Inr (we_decodeOwners env body), w2)))))"

definition session_expired :: "string \<Rightarrow> bool" where
  \<comment> \<open>\<open>strings.Contains(err.Error(), "401") || strings.Contains(err.Error(), "sign in")\<close>\<close>
  "session_expired msg = (Contains msg ''401'' \<or> Contains msg ''sign in'')"

definition WebPostComment ::
  "Config \<Rightarrow> web_env \<Rightarrow> int \<Rightarrow> int \<Rightarrow> string \<Rightarrow> web_world \<Rightarrow> (string + Comment) \<times> web_world" where
  "WebPostComment cfg env projectID storyID text w =
     (case ensureLoggedIn cfg env w of
        (Some err, w1) \<Rightarrow> (Inl err, w1)
      | (None, w1) \<Rightarrow>
          (case postComment cfg env storyID text w1 of
             (Inl err, w2) \<Rightarrow>
               if session_expired err then
                 (case ensureLoggedIn cfg env (w2\<lparr>loggedIn := False\<rparr>) of
                    (Some err', w3) \<Rightarrow> (Inl err', w3)
                  | (None, w3) \<Rightarrow> postComment cfg env storyID text w3)
               else (Inl err, w2)
           | (Inr comment, w2) \<Rightarrow> (Inr comment, w2)))"

definition WebAddLabel ::
  "Config \<Rightarrow> web_env \<Rightarrow> int \<Rightarrow> int \<Rightarrow> string \<Rightarrow> web_world \<Rightarrow> (string + Label) \<times> web_world" where
  "WebAddLabel cfg env projectID storyID name w =
     (case ensureLoggedIn cfg env w of
        (Some err, w1) \<Rightarrow> (Inl err, w1)
      | (None, w1) \<Rightarrow>
          (case addLabel cfg env storyID projectID name w1 of
             (Inl err, w2) \<Rightarrow>
               if session_expired err then
                 (case ensureLoggedIn cfg env (w2\<lparr>loggedIn := False\<rparr>) of
                    (Some err', w3) \<Rightarrow> (Inl err', w3)
                  | (None, w3) \<Rightarrow> addLabel cfg env storyID projectID name w3)
               else (Inl err, w2)
           | (Inr label, w2) \<Rightarrow> (Inr label, w2)))"

definition WebAddOwner ::
  "Config \<Rightarrow> web_env \<Rightarrow> int \<Rightarrow> int \<Rightarrow> int \<Rightarrow> web_world
     \<Rightarrow> (string + StoryOwner list) \<times> web_world" where
  "WebAddOwner cfg env projectID storyID ownerID w =
     (case ensureLoggedIn cfg env w of
        (Some err, w1) \<Rightarrow> (Inl err, w1)
      | (None, w1) \<Rightarrow>
          (case addOwner cfg env storyID projectID ownerID w1 of
             (Inl err, w2) \<Rightarrow>
               if session_expired err then
                 (case ensureLoggedIn cfg env (w2\<lparr>loggedIn := False\<rparr>) of
                    (Some err', w3) \<Rightarrow> (Inl err', w3)
                  | (None, w3) \<Rightarrow> addOwner cfg env storyID projectID ownerID w3)
               else (Inl err, w2)
           | (Inr owners, w2) \<Rightarrow> (Inr owners, w2)))"

fun is_write :: "request \<Rightarrow> bool" where
  \<comment> \<open>the requests that change the remote story: a comment, a label, an owner replace\<close>
  "is_write (PostCommentReq storyID text) = True"
| "is_write (PostLabelReq storyID projectID name) = True"
| "is_write (PutOwners storyID ids) = True"
| "is_write rq = False"

definition writes_sent :: "web_world \<Rightarrow> request list" where
  "writes_sent w = filter is_write (sent w)"

text \<open>
  The retry policy as a property of a write operation \<open>attempt\<close> and its wrapper
  \<open>wrapped\<close>: when the session check before the first attempt passes and the first
  attempt fails with a message that indicates session expiry, the wrapper marks the
  session unauthenticated and logs in again; if that login fails its error is the result;
  if it succeeds the result is that of one more attempt, unchanged, and the session is
  authenticated after it.
\<close>

definition retries_once ::
  "Config \<Rightarrow> web_env \<Rightarrow> (web_world \<Rightarrow> (string + 'a) \<times> web_world)
     \<Rightarrow> (web_world \<Rightarrow> (string + 'a) \<times> web_world) \<Rightarrow> bool" where
  "retries_once cfg env attempt wrapped =
     (\<forall>w w1 err w2.
        ensureLoggedIn cfg env w = (None, w1) \<and> attempt w1 = (Inl err, w2) \<and> session_expired err
        \<longrightarrow>
        (case ensureLoggedIn cfg env (w2\<lparr>loggedIn := False\<rparr>) of
           (Some err', w3) \<Rightarrow> wrapped w = (Inl err', w3)
         | (None, w3) \<Rightarrow> wrapped w = attempt w3 \<and> loggedIn (snd (attempt w3))))"

section \<open>The snapshot manager\<close>

text \<open>
  The files of the data directory: a map from a path to the content of the file there.
  \<open>filepath.Join\<close> is taken as joining with a separator (it also cleans the result, which
  does not change that the three paths below differ).
\<close>

type_synonym files = "string \<rightharpoonup> string"

definition pathJoin :: "string \<Rightarrow> string \<Rightarrow> string" where
  "pathJoin dir name = dir @ ''/'' @ name"

definition dbPath :: "Config \<Rightarrow> string" where
  "dbPath cfg = pathJoin (DataDir cfg) ''litetracker.duckdb''"

definition snapPath :: "Config \<Rightarrow> string" where
  "snapPath cfg = pathJoin (DataDir cfg) ''litetracker-snapshot.duckdb''"

text \<open>
  What \<open>CreateSnapshot\<close> reads from outside: whether each \<open>os.Remove\<close> takes the file away,
  the outcome of \<open>CHECKPOINT\<close> (its error, or the content of the database file once
  everything buffered is flushed into it), the error of \<open>os.ReadFile\<close> if it has one, how
  much of the copy is at the temporary path at a moment during \<open>os.WriteFile\<close>, the outcome
  of that write, and whether \<open>os.Rename\<close> succeeds.
\<close>

record snap_env =
  se_Remove1_ok :: bool
  se_Checkpoint :: "string + string"
  se_ReadFile_err :: "string option"
  se_written_so_far :: nat
  se_WriteFile :: write_outcome
  se_Rename_ok :: bool
  se_Remove2_ok :: bool

datatype snapshot_error =
    CheckpointFailed string  \<comment> \<open>"checkpoint: ..."\<close>
  | ReadDbFailed string      \<comment> \<open>"read db: ..."\<close>
  | WriteTmpFailed           \<comment> \<open>"write tmp: ..."\<close>
  | RenameFailed             \<comment> \<open>"rename: ..."\<close>

definition Remove :: "bool \<Rightarrow> string \<Rightarrow> files \<Rightarrow> files" where
  \<comment> \<open>\<open>os.Remove(path)\<close> with its error dropped\<close>
  "Remove ok path fs = (if ok then fs(path := None) else fs)"

definition ReadFile :: "snap_env \<Rightarrow> string \<Rightarrow> files \<Rightarrow> string + string" where
  "ReadFile env path fs =
     (case se_ReadFile_err env of
        Some e \<Rightarrow> Inl e
      | None \<Rightarrow> (case fs path of None \<Rightarrow> Inl ''no such file'' | Some data \<Rightarrow> Inr data))"

definition Rename :: "string \<Rightarrow> string \<Rightarrow> files \<Rightarrow> files" where
  \<comment> \<open>a successful \<open>os.Rename(src, dst)\<close>: one step\<close>
  "Rename src dst fs = (fs(dst := fs src))(src := None)"

text \<open>
  \<open>CreateSnapshot\<close> returns its error (\<open>None\<close> for \<open>nil\<close>) and the states the files pass
  through, the last being the state it leaves: at the start, after the first remove,
  after the checkpoint, during the write, after the write, and after the rename or the
  clean-up. An interruption leaves the files in one of these states.
\<close>

definition CreateSnapshot ::
  "Config \<Rightarrow> snap_env \<Rightarrow> files \<Rightarrow> snapshot_error option \<times> files list" where
  "CreateSnapshot cfg env fs0 =
     (let tmpPath = snapPath cfg @ ''.tmp'';
          fs1 = Remove (se_Remove1_ok env) tmpPath fs0
      in case se_Checkpoint env of
           Inl e \<Rightarrow> (Some (CheckpointFailed e), [fs0, fs1])
         | Inr flushed \<Rightarrow>
             (let fs2 = fs1(dbPath cfg \<mapsto> flushed)
              in case ReadFile env (dbPath cfg) fs2 of
                   Inl e \<Rightarrow> (Some (ReadDbFailed e), [fs0, fs1, fs2])
                 | Inr data \<Rightarrow>
                     (let during = fs2(tmpPath \<mapsto> take (se_written_so_far env) data)
                      in case se_WriteFile env of
                           WriteFailed left \<Rightarrow>
                             (let fs3 = fs2(tmpPath := left);
                                  fs4 = Remove (se_Remove2_ok env) tmpPath fs3
                              in (Some WriteTmpFailed, [fs0, fs1, fs2, during, fs3, fs4]))
                         | Written \<Rightarrow>
                             (let fs3 = fs2(tmpPath \<mapsto> data)
                              in if se_Rename_ok env
                                 then (None, [fs0, fs1, fs2, during, fs3,
                                              Rename tmpPath (snapPath cfg) fs3])
                                 else (Some RenameFailed,
                                       [fs0, fs1, fs2, during, fs3,
                                        Remove (se_Remove2_ok env) tmpPath fs3])))))"

section \<open>Example data\<close>

text \<open>Concrete inputs at which the theorems below are instantiated.\<close>

definition example_env :: dbenv where
  "example_env = \<lparr> now_at = (\<lambda>n. ''2026-02-11T04:30:00Z''), exec_fails = (\<lambda>n. False),
                   cast_timestamp = Some \<rparr>"

definition empty_db :: db where
  "empty_db = \<lparr> stories = [], comments = [], execs = 0 \<rparr>"

definition story_row1 :: StoryRow where
  "story_row1 = \<lparr> sr_ID = 1, sr_ProjectID = 10, sr_Title = ''first'', sr_Description = None,
     sr_StoryType = Some ''feature'', sr_CurrentState = Some ''started'', sr_Estimate = None,
     sr_Priority = None, sr_URL = None, sr_RequestedByID = None, sr_OwnerNames = None,
     sr_LabelNames = None, sr_IsMine = True, sr_MentionsMe = True,
     sr_CreatedAt = ''11 Feb 2026, 04:30AM'', sr_UpdatedAt = '''' \<rparr>"

definition story_row1_again :: StoryRow where
  "story_row1_again = story_row1 \<lparr> sr_ProjectID := 20, sr_Title := ''second'',
     sr_MentionsMe := False, sr_CreatedAt := ''not a date'' \<rparr>"

definition comment_row1 :: CommentRow where
  "comment_row1 = \<lparr> cr_ID = 5, cr_StoryID = 1, cr_ProjectID = 10, cr_Text = Some ''hello'',
     cr_PersonID = Some 3, cr_PersonName = None, cr_MentionsMe = True,
     cr_CreatedAt = ''11 Feb 2026, 04:30AM'' \<rparr>"

definition comment_row1_again :: CommentRow where
  "comment_row1_again = comment_row1 \<lparr> cr_StoryID := 2, cr_ProjectID := 20,
     cr_Text := Some ''edited'', cr_MentionsMe := False,
     cr_CreatedAt := ''12 Feb 2026, 05:00PM'' \<rparr>"

definition db1 :: db where
  \<comment> \<open>the store after a first write of story 1 and of comment 5\<close>
  "db1 = snd (UpsertComment example_env comment_row1
            (snd (UpsertStory example_env story_row1 empty_db)))"

definition cfg_alice :: Config where
  "cfg_alice = \<lparr> Token = ''t'', BaseURL = ''https://tracker/services/v5'',
     WebURL = ''https://tracker'', Username = ''alice'', Email = ''alice@example.org'',
     Password = ''secret'', ProjectIDs = [1, 2, 3], UserID = 42, PollIntervalMs = 300000,
     DataDir = ''/data'', ProjectDir = ''/data'' \<rparr>"









definition owner_alice :: StoryOwner where
  "owner_alice = \<lparr> o_ID = 1, o_UserID = 42, o_Name = ''Alice A'', o_Initials = ''AA'' \<rparr>"

definition owner_bob :: StoryOwner where
  "owner_bob = \<lparr> o_ID = 2, o_UserID = 7, o_Name = ''Bob B'', o_Initials = ''BB'' \<rparr>"

definition story_mine :: Story where
  "story_mine = \<lparr> s_ID = 101, s_Title = ''Login page'', s_Description = '''',
     s_StoryType = ''feature'', s_CurrentState = ''started'', s_Estimate = Some 2,
     s_StoryPriority = '''', s_Labels = [], s_OwnerIDs = [], s_Owners = [owner_bob, owner_alice],
     s_RequestedByID = None, s_CreatedAt = ''11 Feb 2026, 04:30AM'',
     s_UpdatedAt = ''12 Feb 2026, 05:00PM'', s_URL = '''', s_ProjectID = None \<rparr>"






definition web_env_ok :: web_env where
  \<comment> \<open>a server that accepts the login and every write; story 101 has the owners of
      \<open>story_mine\<close>\<close>
  "web_env_ok = \<lparr>
     we_respond = (\<lambda>n rq. case rq of
         GetLoginPage \<Rightarrow> HttpResponse 200 ''<meta name=csrf-token content=tok>''
       | PostLogin token email password \<Rightarrow> HttpResponse 302 []
       | GetStoryV5 projectID storyID \<Rightarrow> HttpResponse 200 ''story''
       | PostCommentReq storyID text \<Rightarrow> HttpResponse 201 ''comment''
       | PostLabelReq storyID projectID name \<Rightarrow> HttpResponse 201 ''label''
       | PutOwners storyID ids \<Rightarrow> HttpResponse 200 ''owners''),
     we_NewRequest = (\<lambda>rq. None),
     we_Status = (\<lambda>st. ''Status''),
     we_csrf = (\<lambda>body. Some ''tok''),
     we_decodeStory = (\<lambda>body. Inr story_mine),
     we_decodeComment = (\<lambda>body. None),
     we_decodeLabel = (\<lambda>body. None),
     we_decodeOwners = (\<lambda>body. [owner_bob, owner_alice]) \<rparr>"

definition web_env_expired :: web_env where
  \<comment> \<open>as \<open>web_env_ok\<close>, but the session has expired: the first request is answered 401\<close>
  "web_env_expired = web_env_ok \<lparr> we_respond :=
     (\<lambda>n rq. if n = 0 then HttpResponse 401 ''Please sign in''
              else we_respond web_env_ok n rq) \<rparr>"

definition web_logged_in :: web_world where
  "web_logged_in = \<lparr> loggedIn = True, sent = [] \<rparr>"

definition files0 :: files where
  \<comment> \<open>a data directory with a published snapshot and a stale temporary file\<close>
  "files0 = [dbPath cfg_alice \<mapsto> ''DUCKDB pages 1 2'',
             snapPath cfg_alice \<mapsto> ''DUCKDB pages 1'',
             snapPath cfg_alice @ ''.tmp'' \<mapsto> ''DUCK'']"

definition snap_env_ok :: snap_env where
  "snap_env_ok = \<lparr> se_Remove1_ok = True, se_Checkpoint = Inr ''DUCKDB pages 1 2 3'',
     se_ReadFile_err = None, se_written_so_far = 6, se_WriteFile = Written,
     se_Rename_ok = True, se_Remove2_ok = True \<rparr>"

definition snap_env_cut :: snap_env where
  \<comment> \<open>the copy to the temporary path breaks off after six bytes\<close>
  "snap_env_cut = snap_env_ok \<lparr> se_WriteFile := WriteFailed (Some ''DUCKDB''),
     se_Remove2_ok := False \<rparr>"

section \<open>Simplifier set-up\<close>

text \<open>The recursive equations with an \<open>if\<close> on the right are unfolded by hand.\<close>

declare Itoa.simps [simp del]

section \<open>Properties of the string functions\<close>








section \<open>Properties of the store\<close>

lemma map_key_insert_on_conflict:
  assumes "\<And>r e. key (upd r e) = key r"
  shows "map key (insert_on_conflict key upd e tbl) =
         (if key e \<in> set (map key tbl) then map key tbl else map key tbl @ [key e])"
proof -
  have a: "map key (map (\<lambda>r. if key r = key e then upd r e else r) tbl) = map key tbl"
    by (induction tbl) (auto simp: assms)
  have b: "list_ex (\<lambda>r. key r = key e) tbl \<longleftrightarrow> key e \<in> set (map key tbl)"
    by (induction tbl) auto
  show ?thesis
    unfolding insert_on_conflict_def b using a by (simp del: map_map)
qed

lemma distinct_insert_on_conflict:
  assumes "\<And>r e. key (upd r e) = key r" and "distinct (map key tbl)"
  shows "distinct (map key (insert_on_conflict key upd e tbl))"
  using assms(2) by (simp add: map_key_insert_on_conflict [of key upd, OF assms(1)])

lemma filter_insert_on_conflict:
  assumes "\<And>r e. key (upd r e) = key r"
  shows "filter (\<lambda>r. key r = k) (insert_on_conflict key upd e tbl) =
         (if k = key e
          then (if filter (\<lambda>r. key r = k) tbl = [] then [e]
                else map (\<lambda>r. upd r e) (filter (\<lambda>r. key r = k) tbl))
          else filter (\<lambda>r. key r = k) tbl)"
proof (cases "k = key e")
  case True
  have a: "filter (\<lambda>r. key r = key e) (map (\<lambda>r. if key r = key e then upd r e else r) tbl)
        = map (\<lambda>r. upd r e) (filter (\<lambda>r. key r = key e) tbl)"
    by (induction tbl) (auto simp: assms)
  show ?thesis using True a
    by (auto simp: insert_on_conflict_def list_ex_iff filter_empty_conv)
next
  case False
  have a: "filter (\<lambda>r. key r = k) (map (\<lambda>r. if key r = key e then upd r e else r) tbl)
        = filter (\<lambda>r. key r = k) tbl"
    using False by (induction tbl) (auto simp: assms)
  show ?thesis using False a
    by (auto simp: insert_on_conflict_def list_ex_iff)
qed

lemma st_id_conflict_update: "st_id (story_conflict_update r e) = st_id r"
  by (simp add: story_conflict_update_def)

lemma cm_id_conflict_update: "cm_id (comment_conflict_update r e) = cm_id r"
  by (simp add: comment_conflict_update_def)

lemma filter_mark:
  "filter (\<lambda>r. st_id r = k) (map (\<lambda>r. if st_id r = j then r\<lparr>st_mentions_me := True\<rparr> else r) tbl)
   = map (\<lambda>r. if k = j then r\<lparr>st_mentions_me := True\<rparr> else r) (filter (\<lambda>r. st_id r = k) tbl)"
  by (induction tbl) auto

lemma map_st_id_mark:
  "map st_id (map (\<lambda>r. if st_id r = j then r\<lparr>st_mentions_me := True\<rparr> else r) tbl) = map st_id tbl"
  by (induction tbl) auto

lemma primary_keys_ok_UpsertStory:
  "primary_keys_ok d \<Longrightarrow> primary_keys_ok (snd (UpsertStory env s d))"
  by (auto simp: primary_keys_ok_def UpsertStory_def Let_def distinct_insert_on_conflict
                 st_id_conflict_update split: option.splits)

lemma primary_keys_ok_UpsertComment:
  "primary_keys_ok d \<Longrightarrow> primary_keys_ok (snd (UpsertComment env c d))"
  by (auto simp: primary_keys_ok_def UpsertComment_def Let_def distinct_insert_on_conflict
                 cm_id_conflict_update split: option.splits)

lemma primary_keys_ok_Mark:
  "primary_keys_ok d \<Longrightarrow> primary_keys_ok (snd (MarkStoryMentionsMe env k d))"
  by (auto simp: primary_keys_ok_def MarkStoryMentionsMe_def Let_def map_st_id_mark
           simp del: map_map)

text \<open>what one call does to the rows of one id\<close>

lemma UpsertStory_cases:
  obtains (failed) e where "UpsertStory env s d = (Some e, d\<lparr>execs := execs d + 1\<rparr>)"
  | (stored) synced where "cast_timestamp env (now_at env (execs d)) = Some synced"
      "\<not> exec_fails env (execs d)"
      "UpsertStory env s d = (None, d\<lparr>execs := execs d + 1,
         stories := insert_on_conflict st_id story_conflict_update (story_values env s synced) (stories d)\<rparr>)"
proof (cases "exec_fails env (execs d)")
  case True
  then show thesis using failed [of DriverError] by (simp add: UpsertStory_def Let_def)
next
  case False
  show thesis
  proof (cases "cast_timestamp env (now_at env (execs d))")
    case None
    then show thesis using False failed [of NotNullViolation]
      by (simp add: UpsertStory_def Let_def TRY_CAST_def)
  next
    case (Some synced)
    then show thesis using False stored [of synced]
      by (simp add: UpsertStory_def Let_def TRY_CAST_def)
  qed
qed

lemma UpsertComment_cases:
  obtains (failed) e where "UpsertComment env c d = (Some e, d\<lparr>execs := execs d + 1\<rparr>)"
  | (stored) synced where "cast_timestamp env (now_at env (execs d)) = Some synced"
      "\<not> exec_fails env (execs d)"
      "UpsertComment env c d = (None, d\<lparr>execs := execs d + 1,
         comments := insert_on_conflict cm_id comment_conflict_update (comment_values env c synced) (comments d)\<rparr>)"
proof (cases "exec_fails env (execs d)")
  case True
  then show thesis using failed [of DriverError] by (simp add: UpsertComment_def Let_def)
next
  case False
  show thesis
  proof (cases "cast_timestamp env (now_at env (execs d))")
    case None
    then show thesis using False failed [of NotNullViolation]
      by (simp add: UpsertComment_def Let_def TRY_CAST_def)
  next
    case (Some synced)
    then show thesis using False stored [of synced]
      by (simp add: UpsertComment_def Let_def TRY_CAST_def)
  qed
qed

lemma story_rows_insert:
  "story_rows k (d\<lparr>execs := n, stories := insert_on_conflict st_id story_conflict_update e (stories d)\<rparr>) =
     (if k = st_id e
      then (if story_rows k d = [] then [e] else map (\<lambda>r. story_conflict_update r e) (story_rows k d))
      else story_rows k d)"
  unfolding story_rows_def
  by (simp add: filter_insert_on_conflict [of st_id story_conflict_update, OF st_id_conflict_update])

lemma comment_rows_insert:
  "comment_rows k (d\<lparr>execs := n, comments := insert_on_conflict cm_id comment_conflict_update e (comments d)\<rparr>) =
     (if k = cm_id e
      then (if comment_rows k d = [] then [e] else map (\<lambda>r. comment_conflict_update r e) (comment_rows k d))
      else comment_rows k d)"
  unfolding comment_rows_def
  by (simp add: filter_insert_on_conflict [of cm_id comment_conflict_update, OF cm_id_conflict_update])

lemma story_rows_Mark:
  "story_rows k (snd (MarkStoryMentionsMe env j d)) =
     (if k = j \<and> \<not> exec_fails env (execs d) then map (\<lambda>r. r\<lparr>st_mentions_me := True\<rparr>) (story_rows k d)
      else story_rows k d)"
  by (simp add: story_rows_def MarkStoryMentionsMe_def Let_def filter_mark del: map_map)

lemma rows_kept_UpsertStory:
  assumes "story_rows k d \<noteq> []" "list_all st_mentions_me (story_rows k d)"
  shows "length (story_rows k (snd (UpsertStory env s d))) = length (story_rows k d)
       \<and> list_all st_mentions_me (story_rows k (snd (UpsertStory env s d)))"
proof (cases rule: UpsertStory_cases [of env s d])
  case (failed e)
  then show ?thesis using assms by (simp add: story_rows_def)
next
  case (stored synced)
  then show ?thesis using assms
    by (auto simp: story_rows_insert list_all_iff story_conflict_update_def)
qed

lemma rows_kept_Mark:
  assumes "story_rows k d \<noteq> []" "list_all st_mentions_me (story_rows k d)"
  shows "length (story_rows k (snd (MarkStoryMentionsMe env j d))) = length (story_rows k d)
       \<and> list_all st_mentions_me (story_rows k (snd (MarkStoryMentionsMe env j d)))"
  using assms by (auto simp: story_rows_Mark list_all_iff)

lemma rows_kept_run_calls:
  assumes "story_rows k d \<noteq> []" "list_all st_mentions_me (story_rows k d)"
  shows "length (story_rows k (run_calls env calls d)) = length (story_rows k d)
       \<and> list_all st_mentions_me (story_rows k (run_calls env calls d))"
  using assms
proof (induction calls arbitrary: d)
  case Nil
  then show ?case by (simp add: run_calls_def)
next
  case (Cons c calls)
  have step: "length (story_rows k (run_call env c d)) = length (story_rows k d)
       \<and> list_all st_mentions_me (story_rows k (run_call env c d))"
    using Cons.prems by (cases c) (simp_all add: rows_kept_UpsertStory rows_kept_Mark)
  then have ne: "story_rows k (run_call env c d) \<noteq> []" using Cons.prems(1) by auto
  have "run_calls env (c # calls) d = run_calls env calls (run_call env c d)"
    by (simp add: run_calls_def)
  with Cons.IH [OF ne] step show ?case by simp
qed

lemma UpsertStory_existing:
  assumes rows: "story_rows (sr_ID s) d = [old]" and ok: "UpsertStory env s d = (None, d')"
  shows "\<exists>synced. cast_timestamp env (now_at env (execs d)) = Some synced \<and>
           story_rows (sr_ID s) d' =
             [(story_values env s synced)\<lparr> st_project_id := st_project_id old,
                 st_mentions_me := (sr_MentionsMe s \<or> st_mentions_me old) \<rparr>]"
proof (cases rule: UpsertStory_cases [of env s d])
  case (failed e)
  with ok show ?thesis by simp
next
  case (stored synced)
  have "old \<in> set (story_rows (sr_ID s) d)" using rows by simp
  then have id: "st_id old = sr_ID s" by (simp add: story_rows_def)
  have upd: "story_conflict_update old (story_values env s synced) =
      (story_values env s synced)\<lparr> st_project_id := st_project_id old,
                 st_mentions_me := (sr_MentionsMe s \<or> st_mentions_me old) \<rparr>"
    using id by (simp add: story_conflict_update_def story_values_def)
  have d': "d' = d\<lparr>execs := execs d + 1, stories := insert_on_conflict st_id story_conflict_update
                       (story_values env s synced) (stories d)\<rparr>"
    using ok stored(3) by simp
  have "story_rows (sr_ID s) d' = [story_conflict_update old (story_values env s synced)]"
    unfolding d' by (simp add: story_rows_insert rows story_values_def)
  with upd stored(1) show ?thesis by simp
qed

lemma UpsertComment_existing:
  assumes rows: "comment_rows (cr_ID c) d = [old]" and ok: "UpsertComment env c d = (None, d')"
  shows "\<exists>synced. cast_timestamp env (now_at env (execs d)) = Some synced \<and>
           comment_rows (cr_ID c) d' =
             [(comment_values env c synced)\<lparr> cm_story_id := cm_story_id old,
                 cm_project_id := cm_project_id old, cm_created_at := cm_created_at old,
                 cm_mentions_me := (cr_MentionsMe c \<or> cm_mentions_me old) \<rparr>]"
proof (cases rule: UpsertComment_cases [of env c d])
  case (failed e)
  with ok show ?thesis by simp
next
  case (stored synced)
  have "old \<in> set (comment_rows (cr_ID c) d)" using rows by simp
  then have id: "cm_id old = cr_ID c" by (simp add: comment_rows_def)
  have upd: "comment_conflict_update old (comment_values env c synced) =
      (comment_values env c synced)\<lparr> cm_story_id := cm_story_id old,
                 cm_project_id := cm_project_id old, cm_created_at := cm_created_at old,
                 cm_mentions_me := (cr_MentionsMe c \<or> cm_mentions_me old) \<rparr>"
    using id by (simp add: comment_conflict_update_def comment_values_def)
  have d': "d' = d\<lparr>execs := execs d + 1, comments := insert_on_conflict cm_id comment_conflict_update
                       (comment_values env c synced) (comments d)\<rparr>"
    using ok stored(3) by simp
  have "comment_rows (cr_ID c) d' = [comment_conflict_update old (comment_values env c synced)]"
    unfolding d' by (simp add: comment_rows_insert rows comment_values_def)
  with upd stored(1) show ?thesis by simp
qed

text \<open>
  Claim C1. The \<open>mentions_me\<close> flag of a story row is monotonic. If the row of id \<open>k\<close> has the
  flag set, then after every sequence of \<open>UpsertStory\<close> and \<open>MarkStoryMentionsMe\<close> calls
  (failing ones included) there is still exactly that one row of id \<open>k\<close> and its flag is
  set. And one successful upsert of an id that has a row leaves the flag equal to
  \<open>incoming OR existing\<close>, so an incoming \<open>false\<close> keeps an existing \<open>true\<close>.
\<close>
theorem mentions_me_monotonic:
  "(story_rows k d = [r] \<and> st_mentions_me r \<longrightarrow>
      (\<exists>r'. story_rows k (run_calls env calls d) = [r'] \<and> st_mentions_me r'))
   \<and> (story_rows (sr_ID s) d = [r] \<and> UpsertStory env s d = (None, d') \<longrightarrow>
      (\<exists>r'. story_rows (sr_ID s) d' = [r'] \<and>
            st_mentions_me r' = (sr_MentionsMe s \<or> st_mentions_me r)))"
proof (intro conjI impI)
  assume a: "story_rows k d = [r] \<and> st_mentions_me r"
  then have "story_rows k d \<noteq> []" "list_all st_mentions_me (story_rows k d)" by simp_all
  from rows_kept_run_calls [OF this, of env calls] a
  have l: "length (story_rows k (run_calls env calls d)) = 1"
    and f: "list_all st_mentions_me (story_rows k (run_calls env calls d))" by simp_all
  from l obtain r' where "story_rows k (run_calls env calls d) = [r']"
    by (cases "story_rows k (run_calls env calls d)") auto
  with f show "\<exists>r'. story_rows k (run_calls env calls d) = [r'] \<and> st_mentions_me r'" by simp
next
  assume "story_rows (sr_ID s) d = [r] \<and> UpsertStory env s d = (None, d')"
  then have a: "story_rows (sr_ID s) d = [r]" and b: "UpsertStory env s d = (None, d')" by simp_all
  from UpsertStory_existing [OF a b]
  show "\<exists>r'. story_rows (sr_ID s) d' = [r'] \<and> st_mentions_me r' = (sr_MentionsMe s \<or> st_mentions_me r)"
    by auto
qed

theorem mentions_me_monotonic_witness:
  "story_rows 1 db1 = [story_values example_env story_row1 ''2026-02-11T04:30:00Z'']
   \<and> st_mentions_me (story_values example_env story_row1 ''2026-02-11T04:30:00Z'')
   \<and> sr_MentionsMe story_row1_again = False
   \<and> (\<exists>r'. story_rows 1 (run_calls example_env
               [CallUpsertStory story_row1_again, CallMarkStoryMentionsMe 2] db1) = [r']
            \<and> st_mentions_me r')
   \<and> fst (UpsertStory example_env story_row1_again db1) = None
   \<and> (\<exists>r'. story_rows 1 (snd (UpsertStory example_env story_row1_again db1)) = [r']
            \<and> st_mentions_me r')"
proof -
  let ?r = "story_values example_env story_row1 ''2026-02-11T04:30:00Z''"
  have h: "story_rows 1 db1 = [?r] \<and> st_mentions_me ?r"
    by code_simp
  have g: "sr_MentionsMe story_row1_again = False" by code_simp
  have k: "sr_ID story_row1_again = 1" by code_simp
  have f: "fst (UpsertStory example_env story_row1_again db1) = None" by code_simp
  then have u: "UpsertStory example_env story_row1_again db1
      = (None, snd (UpsertStory example_env story_row1_again db1))"
    by (simp add: prod_eq_iff)
  note th = mentions_me_monotonic [of 1 db1 ?r example_env
      "[CallUpsertStory story_row1_again, CallMarkStoryMentionsMe 2]" story_row1_again
      "snd (UpsertStory example_env story_row1_again db1)"]
  have 1: "\<exists>r'. story_rows 1 (run_calls example_env
               [CallUpsertStory story_row1_again, CallMarkStoryMentionsMe 2] db1) = [r']
            \<and> st_mentions_me r'"
    using th h by blast
  have h2: "story_rows (sr_ID story_row1_again) db1 = [?r]" using h k by simp
  have "\<exists>r'. story_rows (sr_ID story_row1_again)
               (snd (UpsertStory example_env story_row1_again db1)) = [r']
            \<and> st_mentions_me r' = (sr_MentionsMe story_row1_again \<or> st_mentions_me ?r)"
    using th h2 u by blast
  then have 2: "\<exists>r'. story_rows 1 (snd (UpsertStory example_env story_row1_again db1)) = [r']
            \<and> st_mentions_me r'"
    using h k by auto
  show ?thesis using h g f 1 2 by blast
qed

text \<open>
  Claim C2 (as amended). Upserting an id that has a row yields exactly one row of that id.
  For a story, every column equals the incoming write's value except \<open>project_id\<close>, which
  the conflict clause does not list and which keeps the existing value, and
  \<open>mentions_me\<close>, which becomes \<open>incoming OR existing\<close>. For a comment the conflict clause
  lists only \<open>text\<close>, \<open>person_id\<close>, \<open>person_name\<close>, \<open>mentions_me\<close> and \<open>synced_at\<close>: the
  columns \<open>story_id\<close>, \<open>project_id\<close> and \<open>created_at\<close> keep the existing values.
\<close>

theorem upsert_existing_row:
  "(story_rows (sr_ID s) d = [old] \<and> UpsertStory env s d = (None, d') \<longrightarrow>
      (\<exists>synced. cast_timestamp env (now_at env (execs d)) = Some synced \<and>
         story_rows (sr_ID s) d' =
           [(story_values env s synced)\<lparr> st_project_id := st_project_id old,
               st_mentions_me := (sr_MentionsMe s \<or> st_mentions_me old) \<rparr>]))
   \<and> (comment_rows (cr_ID c) d = [oldc] \<and> UpsertComment env c d = (None, d'') \<longrightarrow>
      (\<exists>synced. cast_timestamp env (now_at env (execs d)) = Some synced \<and>
         comment_rows (cr_ID c) d'' =
           [(comment_values env c synced)\<lparr> cm_story_id := cm_story_id oldc,
               cm_project_id := cm_project_id oldc, cm_created_at := cm_created_at oldc,
               cm_mentions_me := (cr_MentionsMe c \<or> cm_mentions_me oldc) \<rparr>]))"
  using UpsertStory_existing [of s d old env d'] UpsertComment_existing [of c d oldc env d'']
  by blast

theorem upsert_existing_row_witness:
  "story_rows (sr_ID story_row1_again) db1
     = [story_values example_env story_row1 ''2026-02-11T04:30:00Z'']
   \<and> fst (UpsertStory example_env story_row1_again db1) = None
   \<and> (\<exists>synced. story_rows (sr_ID story_row1_again)
                   (snd (UpsertStory example_env story_row1_again db1)) =
         [(story_values example_env story_row1_again synced)\<lparr> st_project_id := 10,
             st_mentions_me := True \<rparr>])
   \<and> comment_rows (cr_ID comment_row1_again) db1
     = [comment_values example_env comment_row1 ''2026-02-11T04:30:00Z'']
   \<and> fst (UpsertComment example_env comment_row1_again db1) = None
   \<and> (\<exists>synced. comment_rows (cr_ID comment_row1_again)
                   (snd (UpsertComment example_env comment_row1_again db1)) =
         [(comment_values example_env comment_row1_again synced)\<lparr> cm_story_id := 1,
             cm_project_id := 10, cm_created_at := Some ''2026-02-11T04:30:00.000Z'',
             cm_mentions_me := True \<rparr>])"
proof -
  let ?old = "story_values example_env story_row1 ''2026-02-11T04:30:00Z''"
  let ?oldc = "comment_values example_env comment_row1 ''2026-02-11T04:30:00Z''"
  have h: "story_rows (sr_ID story_row1_again) db1 = [?old]"
    by code_simp
  have f: "fst (UpsertStory example_env story_row1_again db1) = None"
    by code_simp
  then have u: "UpsertStory example_env story_row1_again db1
      = (None, snd (UpsertStory example_env story_row1_again db1))"
    by (simp add: prod_eq_iff)
  have v: "st_project_id ?old = 10 \<and> st_mentions_me ?old"
    by code_simp
  have hc: "comment_rows (cr_ID comment_row1_again) db1 = [?oldc]"
    by code_simp
  have fc: "fst (UpsertComment example_env comment_row1_again db1) = None"
    by code_simp
  then have uc: "UpsertComment example_env comment_row1_again db1
      = (None, snd (UpsertComment example_env comment_row1_again db1))"
    by (simp add: prod_eq_iff)
  have vc: "cm_story_id ?oldc = 1 \<and> cm_project_id ?oldc = 10
       \<and> cm_created_at ?oldc = Some ''2026-02-11T04:30:00.000Z'' \<and> cm_mentions_me ?oldc"
    by code_simp
  note th = upsert_existing_row [of story_row1_again db1 ?old example_env
      "snd (UpsertStory example_env story_row1_again db1)" comment_row1_again ?oldc
      "snd (UpsertComment example_env comment_row1_again db1)"]
  have 1: "\<exists>synced. story_rows (sr_ID story_row1_again)
                   (snd (UpsertStory example_env story_row1_again db1)) =
         [(story_values example_env story_row1_again synced)\<lparr> st_project_id := 10,
             st_mentions_me := True \<rparr>]"
    using th [THEN conjunct1, rule_format, OF conjI [OF h u]] v by auto
  have 2: "\<exists>synced. comment_rows (cr_ID comment_row1_again)
                   (snd (UpsertComment example_env comment_row1_again db1)) =
         [(comment_values example_env comment_row1_again synced)\<lparr> cm_story_id := 1,
             cm_project_id := 10, cm_created_at := Some ''2026-02-11T04:30:00.000Z'',
             cm_mentions_me := True \<rparr>]"
    using th [THEN conjunct2, rule_format, OF conjI [OF hc uc]] vc by auto
  show ?thesis using h f hc fc 1 2 by blast
qed

text \<open>
  Claim C2 as stated fails: the second write of story 1 names project 20 and the row keeps
  project 10; the second write of comment 5 names story 2 and a later creation time, and
  the row keeps story 1 and the first creation time.
\<close>

theorem upsert_existing_row_counterexample:
  "sr_ProjectID story_row1_again = 20
   \<and> map st_project_id (story_rows 1 (snd (UpsertStory example_env story_row1_again db1))) = [10]
   \<and> cr_StoryID comment_row1_again = 2
   \<and> ParseApiDate (cr_CreatedAt comment_row1_again) = Some ''2026-02-12T17:00:00.000Z''
   \<and> map cm_story_id (comment_rows 5 (snd (UpsertComment example_env comment_row1_again db1)))
       = [1]
   \<and> map cm_created_at (comment_rows 5 (snd (UpsertComment example_env comment_row1_again db1)))
       = [Some ''2026-02-11T04:30:00.000Z'']"
  by code_simp

section \<open>Properties of the timestamp parser\<close>

lemma isDigit_not_isSpace: "isDigit c \<Longrightarrow> \<not> isSpace c"
  by (auto simp: isDigit_def isSpace_def Let_def)

lemma isWord_not_isSpace: "isWord c \<Longrightarrow> \<not> isSpace c"
  by (auto simp: isWord_def isSpace_def Let_def)

lemma reDigits12_complete:
  assumes "d \<noteq> []" "length d \<le> 2" "list_all isDigit d" "r = [] \<or> \<not> isDigit (hd r)"
  shows "reDigits12 (d @ r) = Some (d, r)"
proof -
  have "takeWhile isDigit (take 2 (d @ r)) = d"
  proof (cases "length d = 2")
    case True
    then show ?thesis using assms(3) by (simp add: list_all_iff)
  next
    case False
    with assms(1,2) have l: "length d = 1" by (cases d) (auto simp: le_Suc_eq)
    then obtain a where d: "d = [a]" by (cases d) auto
    show ?thesis using assms(3,4) d by (cases r) auto
  qed
  then show ?thesis using assms(1) by (simp add: reDigits12_def Let_def)
qed

lemma reDigits12_sound:
  assumes "reDigits12 s = Some (d, r)"
  shows "s = d @ r \<and> d \<noteq> [] \<and> length d \<le> 2 \<and> list_all isDigit d"
proof -
  from assms have d: "d = takeWhile isDigit (take 2 s)" and r: "r = drop (length d) s" and ne: "d \<noteq> []"
    by (auto simp: reDigits12_def Let_def split: if_splits)
  have len: "length d \<le> 2"
    unfolding d by (rule order_trans [OF length_takeWhile_le]) simp
  have pre: "d = take (length d) s"
  proof -
    have "take (length d) (take 2 s) = d"
      unfolding d by (rule takeWhile_eq_take [symmetric])
    then show ?thesis using len by (simp add: min_def)
  qed
  have "s = take (length d) s @ drop (length d) s" by simp
  then have "s = d @ r" using pre r by simp
  moreover have "list_all isDigit d" unfolding d list_all_iff by (auto dest: set_takeWhileD)
  ultimately show ?thesis using ne len by simp
qed

lemma reSpaces_complete:
  assumes "ws \<noteq> []" "list_all isSpace ws" "r = [] \<or> \<not> isSpace (hd r)"
  shows "reSpaces (ws @ r) = Some r"
proof -
  have all: "\<And>x. x \<in> set ws \<Longrightarrow> isSpace x" using assms(2) by (simp add: list_all_iff)
  have t: "takeWhile isSpace r = []" using assms(3) by (cases r) auto
  have dr: "dropWhile isSpace r = r" using assms(3) by (cases r) auto
  have a: "takeWhile isSpace (ws @ r) = ws"
    by (simp add: takeWhile_append2 [of ws isSpace r, OF all] t)
  have b: "dropWhile isSpace (ws @ r) = r"
    by (simp add: dropWhile_append2 [of ws isSpace r, OF all] dr)
  show ?thesis using a b assms(1) by (simp add: reSpaces_def)
qed

lemma reSpaces_sound:
  assumes "reSpaces s = Some r"
  shows "\<exists>ws. s = ws @ r \<and> ws \<noteq> [] \<and> list_all isSpace ws \<and> (r = [] \<or> \<not> isSpace (hd r))"
proof -
  from assms have ne: "takeWhile isSpace s \<noteq> []" and r: "r = dropWhile isSpace s"
    by (auto simp: reSpaces_def split: if_splits)
  have "s = takeWhile isSpace s @ r" unfolding r by simp
  moreover have "list_all isSpace (takeWhile isSpace s)" by (auto simp: list_all_iff dest: set_takeWhileD)
  moreover have "r = [] \<or> \<not> isSpace (hd r)" unfolding r using hd_dropWhile [of isSpace s] by blast
  ultimately show ?thesis using ne by blast
qed

lemma reClassN_complete:
  "length m = n \<Longrightarrow> list_all cls m \<Longrightarrow> reClassN cls n (m @ r) = Some (m, r)"
  by (simp add: reClassN_def)

lemma reClassN_sound:
  "reClassN cls n s = Some (m, r) \<Longrightarrow> s = m @ r \<and> length m = n \<and> list_all cls m"
  by (auto simp: reClassN_def split: if_splits)

lemma reLit_complete: "reLit c (c # r) = Some r"
  by (simp add: reLit_def)

lemma reLit_sound: "reLit c s = Some r \<Longrightarrow> s = c # r"
  by (auto simp: reLit_def split: list.splits if_splits)

lemma reAmPm_sound: "reAmPm s = Some (ap, r) \<Longrightarrow> s = ap @ r \<and> (ap = ''AM'' \<or> ap = ''PM'')"
proof -
  assume a: "reAmPm s = Some (ap, r)"
  then have "ap = take 2 s" "r = drop 2 s" "ap = ''AM'' \<or> ap = ''PM''"
    by (auto simp: reAmPm_def split: if_splits)
  then show ?thesis using append_take_drop_id [of 2 s] by simp
qed

lemma reAmPm_complete: "ap = ''AM'' \<or> ap = ''PM'' \<Longrightarrow> reAmPm (ap @ r) = Some (ap, r)"
  by (auto simp: reAmPm_def)


lemma hd_class_append: "xs \<noteq> [] \<Longrightarrow> list_all P xs \<Longrightarrow> P (hd (xs @ ys))"
  by (cases xs) auto

lemma FindStringSubmatch_complete:
  assumes "api_date_shape day ws1 mon ws2 year ws3 hh mi ap"
  shows "FindStringSubmatch (api_date_text day ws1 mon ws2 year ws3 hh mi ap)
         = Some (day, mon, year, hh, mi, ap)"
proof -
  note sh = assms [unfolded api_date_shape_def]
  let ?r11 = "[] :: string"
  let ?r10 = "ap @ ?r11"
  let ?r9 = "mi @ ?r10"
  let ?r8 = "CHR '':'' # ?r9"
  let ?r7 = "hh @ ?r8"
  let ?r6 = "ws3 @ ?r7"
  let ?r5 = "CHR '','' # ?r6"
  let ?r4 = "year @ ?r5"
  let ?r3 = "ws2 @ ?r4"
  let ?r2 = "mon @ ?r3"
  let ?r1 = "ws1 @ ?r2"
  have s: "api_date_text day ws1 mon ws2 year ws3 hh mi ap = day @ ?r1"
    by (simp add: api_date_text_def)
  have nd1: "\<not> isDigit (hd ?r1)"
    using hd_class_append [of ws1 isSpace ?r2] sh isDigit_not_isSpace by blast
  have ns2: "\<not> isSpace (hd ?r2)"
    using hd_class_append [of mon isWord ?r3] sh isWord_not_isSpace by fastforce
  have ns4: "\<not> isSpace (hd ?r4)"
    using hd_class_append [of year isDigit ?r5] sh isDigit_not_isSpace by fastforce
  have ns7: "\<not> isSpace (hd ?r7)"
    using hd_class_append [of hh isDigit ?r8] sh isDigit_not_isSpace by blast
  have nd8: "\<not> isDigit (hd ?r8)" by (simp add: isDigit_def)
  have 1: "reDigits12 (day @ ?r1) = Some (day, ?r1)"
    using sh nd1 by (intro reDigits12_complete) simp_all
  have 2: "reSpaces ?r1 = Some ?r2"
    using sh ns2 by (intro reSpaces_complete) simp_all
  have 3: "reClassN isWord 3 ?r2 = Some (mon, ?r3)"
    using sh by (intro reClassN_complete) simp_all
  have 4: "reSpaces ?r3 = Some ?r4"
    using sh ns4 by (intro reSpaces_complete) simp_all
  have 5: "reClassN isDigit 4 ?r4 = Some (year, ?r5)"
    using sh by (intro reClassN_complete) simp_all
  have 6: "reLit (CHR '','') ?r5 = Some ?r6" by (rule reLit_complete)
  have 7: "reSpaces ?r6 = Some ?r7"
    using sh ns7 by (intro reSpaces_complete) simp_all
  have 8: "reDigits12 ?r7 = Some (hh, ?r8)"
    using sh nd8 by (intro reDigits12_complete) simp_all
  have 9: "reLit (CHR '':'') ?r8 = Some ?r9" by (rule reLit_complete)
  have 10: "reClassN isDigit 2 ?r9 = Some (mi, ?r10)"
    using sh by (intro reClassN_complete) simp_all
  have 11: "reAmPm ?r10 = Some (ap, ?r11)"
    using sh by (intro reAmPm_complete) simp_all
  show ?thesis
    unfolding s FindStringSubmatch_def by (simp only: 1 2 3 4 5 6 7 8 9 10 11 Option.bind.simps prod.case simp_thms if_True)
qed

lemma FindStringSubmatch_sound:
  assumes "FindStringSubmatch s = Some (day, mon, year, hh, mi, ap)"
  shows "\<exists>ws1 ws2 ws3. s = api_date_text day ws1 mon ws2 year ws3 hh mi ap
           \<and> api_date_shape day ws1 mon ws2 year ws3 hh mi ap"
proof -
  from assms obtain r1 r2 r3 r4 r5 r6 r7 r8 r9 r10 where
    1: "reDigits12 s = Some (day, r1)" and
    2: "reSpaces r1 = Some r2" and
    3: "reClassN isWord 3 r2 = Some (mon, r3)" and
    4: "reSpaces r3 = Some r4" and
    5: "reClassN isDigit 4 r4 = Some (year, r5)" and
    6: "reLit (CHR '','') r5 = Some r6" and
    7: "reSpaces r6 = Some r7" and
    8: "reDigits12 r7 = Some (hh, r8)" and
    9: "reLit (CHR '':'') r8 = Some r9" and
    10: "reClassN isDigit 2 r9 = Some (mi, r10)" and
    11: "reAmPm r10 = Some (ap, [])"
    unfolding FindStringSubmatch_def
    by (auto simp: bind_eq_Some_conv split: prod.splits if_splits)
  from reSpaces_sound [OF 2] obtain ws1 where w1: "r1 = ws1 @ r2" "ws1 \<noteq> []" "list_all isSpace ws1" by blast
  from reSpaces_sound [OF 4] obtain ws2 where w2: "r3 = ws2 @ r4" "ws2 \<noteq> []" "list_all isSpace ws2" by blast
  from reSpaces_sound [OF 7] obtain ws3 where w3: "r6 = ws3 @ r7" "ws3 \<noteq> []" "list_all isSpace ws3" by blast
  note a1 = reDigits12_sound [OF 1] and a3 = reClassN_sound [OF 3] and a5 = reClassN_sound [OF 5]
    and a6 = reLit_sound [OF 6] and a8 = reDigits12_sound [OF 8] and a9 = reLit_sound [OF 9]
    and a10 = reClassN_sound [OF 10] and a11 = reAmPm_sound [OF 11]
  have "s = api_date_text day ws1 mon ws2 year ws3 hh mi ap"
    using a1 w1(1) a3 w2(1) a5 a6 w3(1) a8 a9 a10 a11 by (simp add: api_date_text_def)
  moreover have "api_date_shape day ws1 mon ws2 year ws3 hh mi ap"
    using a1 w1 a3 w2 a5 w3 a8 a10 a11 by (simp add: api_date_shape_def)
  ultimately show ?thesis by blast
qed



lemma isDigit_not_space: "list_all isDigit xs \<Longrightarrow> CHR '' '' \<notin> set xs"
  by (auto simp: list_all_iff isDigit_def)

lemma ReplaceAll_no_space: "CHR '' '' \<notin> set xs \<Longrightarrow> ReplaceAll_spaceT xs = xs"
  by (induction xs rule: ReplaceAll_spaceT.induct) auto

lemma ReplaceAll_mid:
  "CHR '' '' \<notin> set A \<Longrightarrow>
   ReplaceAll_spaceT (A @ CHR '' '' # CHR ''T'' # B) = A @ CHR ''T'' # ReplaceAll_spaceT B"
proof (induction A)
  case Nil
  show ?case by simp
next
  case (Cons a A)
  then have a: "a \<noteq> CHR '' ''" and IH: "ReplaceAll_spaceT (A @ CHR '' '' # CHR ''T'' # B) = A @ CHR ''T'' # ReplaceAll_spaceT B"
    by auto
  obtain b cs where bc: "A @ CHR '' '' # CHR ''T'' # B = b # cs"
    by (cases A) auto
  have "ReplaceAll_spaceT (a # b # cs) = a # ReplaceAll_spaceT (b # cs)"
    using a by simp
  then show ?case using IH bc by simp
qed

lemma Itoa_digits: "list_all isDigit (Itoa n)"
proof (induction n rule: Itoa.induct)
  case (1 n)
  show ?case
  proof (cases "n < 10")
    case True
    then show ?thesis by (subst Itoa.simps) (simp add: isDigit_def)
  next
    case False
    have "n mod 10 < 10" by simp
    then have "isDigit (char_of (48 + n mod 10))"
      by (simp add: isDigit_def) 
    with False 1 show ?thesis by (subst Itoa.simps) simp
  qed
qed

lemma months_digits: "months mon = Some mm \<Longrightarrow> list_all isDigit mm"
  by (auto simp: months_def isDigit_def split: if_splits)

lemma padZero2_digits: "list_all isDigit s \<Longrightarrow> list_all isDigit (padZero2 s)"
  by (auto simp: padZero2_def list_all_iff isDigit_def)

lemma ToUpper_AM_PM: "ap = ''AM'' \<or> ap = ''PM'' \<Longrightarrow> ToUpper ap = ap"
  by (auto simp: ToUpper_def upperByte_def)

lemma ParseApiDate_shape:
  assumes sh: "api_date_shape day ws1 mon ws2 year ws3 hh mi ap" and m: "months mon = Some monthNum"
  shows "ParseApiDate (api_date_text day ws1 mon ws2 year ws3 hh mi ap)
         = Some (iso_text year monthNum day (hour24 ap (Atoi hh)) mi)"
proof -
  note s = sh [unfolded api_date_shape_def]
  have ne: "api_date_text day ws1 mon ws2 year ws3 hh mi ap \<noteq> []"
    using s by (simp add: api_date_text_def)
  have up: "ToUpper ap = ap" using s by (intro ToUpper_AM_PM) simp
  let ?A = "year @ ''-'' @ monthNum @ ''-'' @ padZero2 day"
  let ?B = "padZero2 (Itoa (hour24 ap (Atoi hh))) @ '':'' @ mi @ '':00.000Z''"
  have A: "CHR '' '' \<notin> set ?A"
    using s isDigit_not_space [of year] isDigit_not_space [OF months_digits [OF m]]
      isDigit_not_space [OF padZero2_digits [of day]] by simp
  have B: "CHR '' '' \<notin> set ?B"
    using s isDigit_not_space [of mi] isDigit_not_space [OF padZero2_digits [OF Itoa_digits]]
    by simp
  have "ReplaceAll_spaceT (?A @ CHR '' '' # CHR ''T'' # ?B) = ?A @ CHR ''T'' # ?B"
    by (simp only: ReplaceAll_mid [OF A] ReplaceAll_no_space [OF B])
  then have r: "ReplaceAll_spaceT (year @ ''-'' @ monthNum @ ''-'' @ padZero2 day @ '' T''
                   @ padZero2 (Itoa (hour24 ap (Atoi hh))) @ '':'' @ mi @ '':00.000Z'')
      = iso_text year monthNum day (hour24 ap (Atoi hh)) mi"
    by (simp add: iso_text_def)
  show ?thesis
    unfolding ParseApiDate_def
    by (simp only: ne FindStringSubmatch_complete [OF sh] m up r Let_def option.case prod.case if_False)
qed

lemma ParseApiDate_Some:
  assumes "ParseApiDate s = Some t"
  shows "\<exists>day ws1 mon ws2 year ws3 hh mi ap monthNum.
           s = api_date_text day ws1 mon ws2 year ws3 hh mi ap
         \<and> api_date_shape day ws1 mon ws2 year ws3 hh mi ap \<and> months mon = Some monthNum"
proof -
  from assms obtain day mon year hh mi ap monthNum where
    f: "FindStringSubmatch s = Some (day, mon, year, hh, mi, ap)" and m: "months mon = Some monthNum"
    unfolding ParseApiDate_def
    by (auto simp: Let_def split: if_splits option.splits prod.splits)
  from FindStringSubmatch_sound [OF f] m show ?thesis by blast
qed


lemma hour24_cases:
  "hour24 ''AM'' 12 = 0 \<and> hour24 ''PM'' 12 = 12 \<and>
   (h \<noteq> 12 \<longrightarrow> hour24 ''PM'' h = h + 12 \<and> hour24 ''AM'' h = h)"
  by (simp add: hour24_def)

lemma story_rows_UpsertStory_created_at:
  assumes p: "ParseApiDate (sr_CreatedAt row) = None"
    and ok: "\<not> exec_fails env (execs d)" "cast_timestamp env (now_at env (execs d)) \<noteq> None"
  shows "fst (UpsertStory env row d) = None
       \<and> story_rows (sr_ID row) (snd (UpsertStory env row d)) \<noteq> []
       \<and> list_all (\<lambda>r. st_created_at r = None)
            (story_rows (sr_ID row) (snd (UpsertStory env row d)))"
proof -
  from ok obtain synced where c: "cast_timestamp env (now_at env (execs d)) = Some synced"
    by auto
  have u: "UpsertStory env row d = (None, d\<lparr>execs := execs d + 1,
       stories := insert_on_conflict st_id story_conflict_update
                    (story_values env row synced) (stories d)\<rparr>)"
    using ok(1) c by (simp add: UpsertStory_def Let_def TRY_CAST_def)
  have n: "st_created_at (story_values env row synced) = None"
    by (simp add: story_values_def p TRY_CAST_def)
  have i: "st_id (story_values env row synced) = sr_ID row"
    by (simp add: story_values_def)
  show ?thesis
    unfolding u
    by (simp add: filter_insert_on_conflict [of st_id story_conflict_update,
                    OF st_id_conflict_update] story_rows_def i n list_all_iff
                  story_conflict_update_def)
qed

text \<open>
  Claim C8 (as amended). \<open>ParseApiDate\<close> returns nil for the empty string. For an input
  made of one or two digits, white space, a month abbreviation of the table, white space,
  four digits, a comma, white space, one or two digits, a colon, two digits and \<open>AM\<close> or
  \<open>PM\<close>, it returns the text \<open>YYYY-MM-DDTHH:MM:00.000Z\<close> built from these pieces, the day
  padded to two characters with a zero and the hour converted by \<open>hour24\<close>: 12AM gives 0,
  12PM stays 12, every other PM hour has 12 added, every other AM hour is unchanged. It
  returns nil for every input that is not of this form. It checks no range: the digits of
  day, hour and minute are taken as they are. A nil result is bound as \<open>NULL\<close>: the upsert
  does not fail on it and the row's \<open>created_at\<close> is absent.
\<close>

theorem ParseApiDate_format:
  "ParseApiDate [] = None
   \<and> (api_date_shape day ws1 mon ws2 year ws3 hh mi ap \<and> months mon = Some monthNum \<longrightarrow>
        ParseApiDate (api_date_text day ws1 mon ws2 year ws3 hh mi ap)
          = Some (iso_text year monthNum day (hour24 ap (Atoi hh)) mi))
   \<and> (ParseApiDate s \<noteq> None \<longrightarrow>
        (\<exists>day' ws1' mon' ws2' year' ws3' hh' mi' ap' monthNum'.
            s = api_date_text day' ws1' mon' ws2' year' ws3' hh' mi' ap'
          \<and> api_date_shape day' ws1' mon' ws2' year' ws3' hh' mi' ap'
          \<and> months mon' = Some monthNum'))
   \<and> hour24 ''AM'' 12 = 0 \<and> hour24 ''PM'' 12 = 12
   \<and> (h \<noteq> 12 \<longrightarrow> hour24 ''PM'' h = h + 12 \<and> hour24 ''AM'' h = h)
   \<and> padZero2 [c] = [CHR ''0'', c]
   \<and> (ParseApiDate (sr_CreatedAt row) = None \<and> \<not> exec_fails env (execs d)
        \<and> cast_timestamp env (now_at env (execs d)) \<noteq> None \<longrightarrow>
        fst (UpsertStory env row d) = None
        \<and> story_rows (sr_ID row) (snd (UpsertStory env row d)) \<noteq> []
        \<and> list_all (\<lambda>r. st_created_at r = None)
             (story_rows (sr_ID row) (snd (UpsertStory env row d))))"
proof -
  have 1: "ParseApiDate [] = None" by (simp add: ParseApiDate_def)
  have 3: "ParseApiDate s \<noteq> None \<longrightarrow>
        (\<exists>day' ws1' mon' ws2' year' ws3' hh' mi' ap' monthNum'.
            s = api_date_text day' ws1' mon' ws2' year' ws3' hh' mi' ap'
          \<and> api_date_shape day' ws1' mon' ws2' year' ws3' hh' mi' ap'
          \<and> months mon' = Some monthNum')"
    using ParseApiDate_Some [of s] by auto
  have 5: "padZero2 [c] = [CHR ''0'', c]" by (simp add: padZero2_def)
  show ?thesis
    using 1 3 5 ParseApiDate_shape [of day ws1 mon ws2 year ws3 hh mi ap monthNum]
      hour24_cases [of h] story_rows_UpsertStory_created_at [of row env d]
    by blast
qed

theorem ParseApiDate_format_witness:
  "api_date_shape ''5'' '' '' ''Feb'' '' '' ''2026'' '' '' ''12'' ''30'' ''AM''
   \<and> months ''Feb'' = Some ''02''
   \<and> ParseApiDate ''5 Feb 2026, 12:30AM'' = Some ''2026-02-05T00:30:00.000Z''
   \<and> (\<exists>day ws1 mon ws2 year ws3 hh mi ap monthNum.
          ''5 Feb 2026, 12:30AM'' = api_date_text day ws1 mon ws2 year ws3 hh mi ap
        \<and> api_date_shape day ws1 mon ws2 year ws3 hh mi ap \<and> months mon = Some monthNum)
   \<and> hour24 ''PM'' 3 = 15 \<and> hour24 ''AM'' 3 = 3
   \<and> ParseApiDate (sr_CreatedAt story_row1_again) = None
   \<and> fst (UpsertStory example_env story_row1_again db1) = None
   \<and> list_all (\<lambda>r. st_created_at r = None)
        (story_rows 1 (snd (UpsertStory example_env story_row1_again db1)))"
proof -
  have a: "api_date_shape ''5'' '' '' ''Feb'' '' '' ''2026'' '' '' ''12'' ''30'' ''AM''
      \<and> months ''Feb'' = Some ''02''"
    by code_simp
  have t: "api_date_text ''5'' '' '' ''Feb'' '' '' ''2026'' '' '' ''12'' ''30'' ''AM''
      = ''5 Feb 2026, 12:30AM''"
    by code_simp
  have i: "iso_text ''2026'' ''02'' ''5'' (hour24 ''AM'' (Atoi ''12'')) ''30''
      = ''2026-02-05T00:30:00.000Z''"
    by code_simp
  have b: "ParseApiDate (sr_CreatedAt story_row1_again) = None
      \<and> \<not> exec_fails example_env (execs db1)
      \<and> cast_timestamp example_env (now_at example_env (execs db1)) \<noteq> None"
    by code_simp
  have k: "sr_ID story_row1_again = 1" by code_simp
  have n3: "(3 :: nat) \<noteq> 12" by simp
  note th = ParseApiDate_format [of "''5''" "'' ''" "''Feb''" "'' ''" "''2026''" "'' ''" "''12''"
      "''30''" "''AM''" "''02''" "''5 Feb 2026, 12:30AM''" 3 _ story_row1_again example_env db1]
  from th a have "ParseApiDate (api_date_text ''5'' '' '' ''Feb'' '' '' ''2026'' '' '' ''12'' ''30'' ''AM'')
      = Some (iso_text ''2026'' ''02'' ''5'' (hour24 ''AM'' (Atoi ''12'')) ''30'')"
    by blast
  then have p: "ParseApiDate ''5 Feb 2026, 12:30AM'' = Some ''2026-02-05T00:30:00.000Z''"
    unfolding t i .
  then have ne: "ParseApiDate ''5 Feb 2026, 12:30AM'' \<noteq> None" by simp
  have s: "\<exists>day ws1 mon ws2 year ws3 hh mi ap monthNum.
          ''5 Feb 2026, 12:30AM'' = api_date_text day ws1 mon ws2 year ws3 hh mi ap
        \<and> api_date_shape day ws1 mon ws2 year ws3 hh mi ap \<and> months mon = Some monthNum"
    using th ne by blast
  have h: "hour24 ''PM'' 3 = 3 + 12 \<and> hour24 ''AM'' 3 = 3"
    using th n3 by blast
  from th b have u: "fst (UpsertStory example_env story_row1_again db1) = None
      \<and> list_all (\<lambda>r. st_created_at r = None)
          (story_rows (sr_ID story_row1_again) (snd (UpsertStory example_env story_row1_again db1)))"
    by blast
  have u': "fst (UpsertStory example_env story_row1_again db1) = None
      \<and> list_all (\<lambda>r. st_created_at r = None)
          (story_rows 1 (snd (UpsertStory example_env story_row1_again db1)))"
    using u k by simp
  have h': "hour24 ''PM'' 3 = 15 \<and> hour24 ''AM'' 3 = 3" using h by simp
  show ?thesis using a p s h' b u' by blast
qed

text \<open>
  Claim C8 as stated fails on inputs of the format whose hour, day or minute is out of
  range: the result is neither nil nor a timestamp.
\<close>

theorem ParseApiDate_format_counterexample:
  "ParseApiDate ''11 Feb 2026, 13:30PM'' = Some ''2026-02-11T25:30:00.000Z''
   \<and> ParseApiDate ''99 Feb 2026, 99:99PM'' = Some ''2026-02-99T111:99:00.000Z''"
  by code_simp

section \<open>Properties of the poll and notify loop\<close>








lemma notifications_savePollState [simp]:
  "notifications (savePollState env s w) = notifications w"
  by (simp add: savePollState_def Let_def split: write_outcome.splits)

lemma activity_requests_savePollState [simp]:
  "activity_requests (savePollState env s w) = activity_requests w"
  by (simp add: savePollState_def Let_def split: write_outcome.splits)









section \<open>Properties of the sync engine\<close>



text \<open>frame and preservation facts of the three writes\<close>

lemma comments_UpsertStory [simp]: "comments (snd (UpsertStory env s d)) = comments d"
  by (cases rule: UpsertStory_cases [of env s d]) simp_all

lemma stories_UpsertComment [simp]: "stories (snd (UpsertComment env c d)) = stories d"
  by (cases rule: UpsertComment_cases [of env c d]) simp_all

lemma comments_Mark [simp]: "comments (snd (MarkStoryMentionsMe env k d)) = comments d"
  by (simp add: MarkStoryMentionsMe_def Let_def)

lemma story_rows_UpsertComment [simp]:
  "story_rows k (snd (UpsertComment env c d)) = story_rows k d"
  by (simp add: story_rows_def)

lemma comment_rows_UpsertStory [simp]:
  "comment_rows k (snd (UpsertStory env s d)) = comment_rows k d"
  by (simp add: comment_rows_def)

lemma comment_rows_Mark [simp]:
  "comment_rows k (snd (MarkStoryMentionsMe env j d)) = comment_rows k d"
  by (simp add: comment_rows_def)



lemma story_present_UpsertComment:
  "story_rows k d \<noteq> [] \<Longrightarrow> story_rows k (snd (UpsertComment env c d)) \<noteq> []"
  by simp

lemma story_flagged_UpsertStory:
  assumes "story_flagged k d"
  shows "story_flagged k (snd (UpsertStory env s d))"
proof -
  from assms have ne: "story_rows k d \<noteq> []" and fl: "list_all st_mentions_me (story_rows k d)"
    by (simp_all add: story_flagged_def)
  from rows_kept_UpsertStory [OF ne fl, of env s]
  have l: "length (story_rows k (snd (UpsertStory env s d))) = length (story_rows k d)"
    and f: "list_all st_mentions_me (story_rows k (snd (UpsertStory env s d)))" by simp_all
  from l ne have "length (story_rows k (snd (UpsertStory env s d))) \<noteq> 0" by simp
  then have "story_rows k (snd (UpsertStory env s d)) \<noteq> []" by (simp only: length_0_conv not_False_eq_True)
  with f show ?thesis by (simp add: story_flagged_def)
qed




lemma comment_flagged_UpsertStory:
  "comment_flagged k d \<Longrightarrow> comment_flagged k (snd (UpsertStory env s d))"
  by (simp add: comment_flagged_def)









lemma sr_ID_storyRowOf [simp]: "sr_ID (storyRowOf m pid s) = s_ID s"
  by (simp add: storyRowOf_def Let_def)

lemma cr_commentRowOf [simp]:
  "cr_ID (commentRowOf pid s c b) = c_ID c" "cr_MentionsMe (commentRowOf pid s c b) = b"
  by (simp_all add: commentRowOf_def)





























section \<open>Properties of the session client\<close>

lemma Do_eq [simp]:
  "fst (Do env rq w) = we_respond env (length (sent w)) rq"
  "loggedIn (snd (Do env rq w)) = loggedIn w"
  "sent (snd (Do env rq w)) = sent w @ [rq]"
  by (simp_all add: Do_def)

lemma ensureLoggedIn_already: "loggedIn w \<Longrightarrow> ensureLoggedIn cfg env w = (None, w)"
  by (simp add: ensureLoggedIn_def)

lemma ensureLoggedIn_None:
  "ensureLoggedIn cfg env w = (None, w') \<Longrightarrow> loggedIn w'"
  by (auto simp: ensureLoggedIn_def Do_def split: if_splits response.splits option.splits)

lemma ensureLoggedIn_writes:
  "writes_sent (snd (ensureLoggedIn cfg env w)) = writes_sent w"
  by (auto simp: ensureLoggedIn_def Do_def writes_sent_def split: if_splits response.splits option.splits)

lemma postComment_loggedIn: "loggedIn (snd (postComment cfg env sid text w)) = loggedIn w"
  by (auto simp: postComment_def Do_def split: response.splits option.splits)

lemma addLabel_loggedIn: "loggedIn (snd (addLabel cfg env sid pid name w)) = loggedIn w"
  by (auto simp: addLabel_def Do_def split: response.splits option.splits)

lemma GetStory_loggedIn: "loggedIn (snd (GetStory env pid sid w)) = loggedIn w"
  by (auto simp: GetStory_def Do_def split: response.splits option.splits sum.splits)

lemma GetStory_sent:
  "GetStory env pid sid w = (Inr story, w1) \<Longrightarrow> w1 = w\<lparr>sent := sent w @ [GetStoryV5 pid sid]\<rparr>"
  by (auto simp: GetStory_def Do_def split: response.splits option.splits sum.splits if_splits)

lemma addOwner_loggedIn: "loggedIn (snd (addOwner cfg env sid pid oid w)) = loggedIn w"
proof (cases "GetStory env pid sid w")
  case (Pair r w1)
  have l: "loggedIn w1 = loggedIn w" using GetStory_loggedIn [of env pid sid w] Pair by simp
  show ?thesis
    using Pair l
    by (auto simp: addOwner_def Let_def Do_def split: response.splits option.splits sum.splits)
qed

lemma owner_ids_loop_eq:
  "owner_ids_loop oid os ids =
     (if oid \<in> set (map o_UserID os) then None else Some (ids @ map o_UserID os))"
  by (induction os arbitrary: ids) auto

lemma retries_once_postComment:
  "retries_once cfg env (postComment cfg env sid text) (WebPostComment cfg env pid sid text)"
  unfolding retries_once_def
proof (intro allI impI)
  fix w w1 err w2
  assume h: "ensureLoggedIn cfg env w = (None, w1) \<and> postComment cfg env sid text w1 = (Inl err, w2)
     \<and> session_expired err"
  show "case ensureLoggedIn cfg env (w2\<lparr>loggedIn := False\<rparr>) of
          (Some err', w3) \<Rightarrow> WebPostComment cfg env pid sid text w = (Inl err', w3)
        | (None, w3) \<Rightarrow> WebPostComment cfg env pid sid text w = postComment cfg env sid text w3
             \<and> loggedIn (snd (postComment cfg env sid text w3))"
  proof (cases "ensureLoggedIn cfg env (w2\<lparr>loggedIn := False\<rparr>)")
    case (Pair r w3)
    show ?thesis
    proof (cases r)
      case None
      with Pair have "loggedIn w3" by (simp add: ensureLoggedIn_None)
      then show ?thesis using h Pair None
        by (simp add: WebPostComment_def postComment_loggedIn)
    next
      case (Some e)
      then show ?thesis using h Pair by (simp add: WebPostComment_def)
    qed
  qed
qed

lemma retries_once_addLabel:
  "retries_once cfg env (addLabel cfg env sid pid name) (WebAddLabel cfg env pid sid name)"
  unfolding retries_once_def
proof (intro allI impI)
  fix w w1 err w2
  assume h: "ensureLoggedIn cfg env w = (None, w1) \<and> addLabel cfg env sid pid name w1 = (Inl err, w2)
     \<and> session_expired err"
  show "case ensureLoggedIn cfg env (w2\<lparr>loggedIn := False\<rparr>) of
          (Some err', w3) \<Rightarrow> WebAddLabel cfg env pid sid name w = (Inl err', w3)
        | (None, w3) \<Rightarrow> WebAddLabel cfg env pid sid name w = addLabel cfg env sid pid name w3
             \<and> loggedIn (snd (addLabel cfg env sid pid name w3))"
  proof (cases "ensureLoggedIn cfg env (w2\<lparr>loggedIn := False\<rparr>)")
    case (Pair r w3)
    show ?thesis
    proof (cases r)
      case None
      with Pair have "loggedIn w3" by (simp add: ensureLoggedIn_None)
      then show ?thesis using h Pair None
        by (simp add: WebAddLabel_def addLabel_loggedIn)
    next
      case (Some e)
      then show ?thesis using h Pair by (simp add: WebAddLabel_def)
    qed
  qed
qed

lemma retries_once_addOwner:
  "retries_once cfg env (addOwner cfg env sid pid oid) (WebAddOwner cfg env pid sid oid)"
  unfolding retries_once_def
proof (intro allI impI)
  fix w w1 err w2
  assume h: "ensureLoggedIn cfg env w = (None, w1) \<and> addOwner cfg env sid pid oid w1 = (Inl err, w2)
     \<and> session_expired err"
  show "case ensureLoggedIn cfg env (w2\<lparr>loggedIn := False\<rparr>) of
          (Some err', w3) \<Rightarrow> WebAddOwner cfg env pid sid oid w = (Inl err', w3)
        | (None, w3) \<Rightarrow> WebAddOwner cfg env pid sid oid w = addOwner cfg env sid pid oid w3
             \<and> loggedIn (snd (addOwner cfg env sid pid oid w3))"
  proof (cases "ensureLoggedIn cfg env (w2\<lparr>loggedIn := False\<rparr>)")
    case (Pair r w3)
    show ?thesis
    proof (cases r)
      case None
      with Pair have "loggedIn w3" by (simp add: ensureLoggedIn_None)
      then show ?thesis using h Pair None
        by (simp add: WebAddOwner_def addOwner_loggedIn)
    next
      case (Some e)
      then show ?thesis using h Pair by (simp add: WebAddOwner_def)
    qed
  qed
qed

lemma writes_sent_loggedIn_update [simp]: "writes_sent (w\<lparr>loggedIn := b\<rparr>) = writes_sent w"
  by (simp add: writes_sent_def)

lemma addOwner_already:
  assumes g: "GetStory env pid sid w = (Inr story, w1)"
    and m: "oid \<in> set (map o_UserID (s_Owners story))"
  shows "addOwner cfg env sid pid oid w = (Inr (s_Owners story), w1)"
  using g m by (simp add: addOwner_def owner_ids_loop_eq)

lemma addOwner_appends:
  assumes g: "GetStory env pid sid w = (Inr story, w1)"
    and m: "oid \<notin> set (map o_UserID (s_Owners story))"
    and n: "we_NewRequest env (PutOwners sid (map o_UserID (s_Owners story) @ [oid])) = None"
  shows "sent (snd (addOwner cfg env sid pid oid w))
         = sent w @ [GetStoryV5 pid sid, PutOwners sid (map o_UserID (s_Owners story) @ [oid])]"
proof -
  have w1: "w1 = w\<lparr>sent := sent w @ [GetStoryV5 pid sid]\<rparr>" using g by (rule GetStory_sent)
  show ?thesis
    using g m n
    by (simp add: addOwner_def owner_ids_loop_eq Let_def Do_def w1 split: response.splits)
qed

text \<open>
  Claim C5. \<open>addOwner\<close> first reads the story through the read-only client. If the user id
  is among the owners of the story it read, it returns that owner list as it is and sends
  nothing but the read: no owner replace, no other write. So does \<open>WebAddOwner\<close> once the
  session check has passed. Otherwise (the request being well-formed) it sends, after the
  read, one owner replace whose list is the owners read followed by the user id.
\<close>

theorem addOwner_idempotent:
  "GetStory env pid sid w = (Inr story, w1) \<longrightarrow>
     (oid \<in> set (map o_UserID (s_Owners story)) \<longrightarrow>
        addOwner cfg env sid pid oid w = (Inr (s_Owners story), w1)
        \<and> sent w1 = sent w @ [GetStoryV5 pid sid]
        \<and> writes_sent w1 = writes_sent w
        \<and> (ensureLoggedIn cfg env w0 = (None, w) \<longrightarrow>
             WebAddOwner cfg env pid sid oid w0 = (Inr (s_Owners story), w1)
             \<and> writes_sent w1 = writes_sent w0))
   \<and> (oid \<notin> set (map o_UserID (s_Owners story))
        \<and> we_NewRequest env (PutOwners sid (map o_UserID (s_Owners story) @ [oid])) = None \<longrightarrow>
        sent (snd (addOwner cfg env sid pid oid w))
          = sent w @ [GetStoryV5 pid sid, PutOwners sid (map o_UserID (s_Owners story) @ [oid])])"
proof (intro impI conjI)
  assume g: "GetStory env pid sid w = (Inr story, w1)"
    and m: "oid \<in> set (map o_UserID (s_Owners story))"
  show a: "addOwner cfg env sid pid oid w = (Inr (s_Owners story), w1)"
    using g m by (rule addOwner_already)
  show s: "sent w1 = sent w @ [GetStoryV5 pid sid]"
    using GetStory_sent [OF g] by simp
  show ws: "writes_sent w1 = writes_sent w"
    using s by (simp add: writes_sent_def)
  {
    assume l: "ensureLoggedIn cfg env w0 = (None, w)"
    show "WebAddOwner cfg env pid sid oid w0 = (Inr (s_Owners story), w1)"
      using l a by (simp add: WebAddOwner_def)
    show "writes_sent w1 = writes_sent w0"
      using ws ensureLoggedIn_writes [of cfg env w0] l by simp
  }
next
  assume g: "GetStory env pid sid w = (Inr story, w1)"
    and m: "oid \<notin> set (map o_UserID (s_Owners story))
        \<and> we_NewRequest env (PutOwners sid (map o_UserID (s_Owners story) @ [oid])) = None"
  then show "sent (snd (addOwner cfg env sid pid oid w))
          = sent w @ [GetStoryV5 pid sid, PutOwners sid (map o_UserID (s_Owners story) @ [oid])]"
    using addOwner_appends [OF g] by blast
qed

lemma postComment_writes:
  "length (writes_sent (snd (postComment cfg env sid text w))) \<le> length (writes_sent w) + 1"
  by (auto simp: postComment_def Do_def writes_sent_def split: response.splits option.splits)

lemma addLabel_writes:
  "length (writes_sent (snd (addLabel cfg env sid pid name w))) \<le> length (writes_sent w) + 1"
  by (auto simp: addLabel_def Do_def writes_sent_def split: response.splits option.splits)

lemma GetStory_writes: "writes_sent (snd (GetStory env pid sid w)) = writes_sent w"
  by (auto simp: GetStory_def Do_def writes_sent_def split: response.splits option.splits sum.splits)

lemma addOwner_writes:
  "length (writes_sent (snd (addOwner cfg env sid pid oid w))) \<le> length (writes_sent w) + 1"
proof (cases "GetStory env pid sid w")
  case (Pair r w1)
  have l: "writes_sent w1 = writes_sent w" using GetStory_writes [of env pid sid w] Pair by simp
  show ?thesis
    using Pair l
    by (auto simp: addOwner_def Let_def Do_def writes_sent_def
             split: response.splits option.splits sum.splits)
qed

lemma wrapper_writes:
  assumes att: "\<And>w. length (writes_sent (snd (attempt w))) \<le> length (writes_sent w) + 1"
    and wr: "wrapped w =
     (case ensureLoggedIn cfg env w of
        (Some err, w1) \<Rightarrow> (Inl err, w1)
      | (None, w1) \<Rightarrow>
          (case attempt w1 of
             (Inl err, w2) \<Rightarrow>
               if session_expired err then
                 (case ensureLoggedIn cfg env (w2\<lparr>loggedIn := False\<rparr>) of
                    (Some err', w3) \<Rightarrow> (Inl err', w3)
                  | (None, w3) \<Rightarrow> attempt w3)
               else (Inl err, w2)
           | (Inr x, w2) \<Rightarrow> (Inr x, w2)))"
  shows "length (writes_sent (snd (wrapped w))) \<le> length (writes_sent w) + 2"
proof (cases "ensureLoggedIn cfg env w")
  case (Pair r w1)
  have e1: "writes_sent w1 = writes_sent w"
    using ensureLoggedIn_writes [of cfg env w] Pair by simp
  show ?thesis
  proof (cases r)
    case (Some e)
    then show ?thesis using wr Pair e1 by simp
  next
    case None
    obtain r2 w2 where a: "attempt w1 = (r2, w2)" by (cases "attempt w1")
    have a1: "length (writes_sent w2) \<le> length (writes_sent w) + 1"
      using att [of w1] a e1 by simp
    show ?thesis
    proof (cases r2)
      case (Inr x)
      then show ?thesis using wr Pair None a a1 by simp
    next
      case (Inl err)
      show ?thesis
      proof (cases "session_expired err")
        case False
        then show ?thesis using wr Pair None a a1 Inl by simp
      next
        case True
        obtain r3 w3 where l: "ensureLoggedIn cfg env (w2\<lparr>loggedIn := False\<rparr>) = (r3, w3)"
          by (cases "ensureLoggedIn cfg env (w2\<lparr>loggedIn := False\<rparr>)")
        have e3: "writes_sent w3 = writes_sent w2"
          using ensureLoggedIn_writes [of cfg env "w2\<lparr>loggedIn := False\<rparr>"] l by simp
        show ?thesis
        proof (cases r3)
          case (Some e)
          then show ?thesis using wr Pair None a a1 Inl True l e3 by simp
        next
          case n3: None
          have "length (writes_sent (snd (attempt w3))) \<le> length (writes_sent w) + 2"
            using att [of w3] e3 a1 by simp
          then show ?thesis using wr Pair None a Inl True l n3 by simp
        qed
      qed
    qed
  qed
qed

theorem addOwner_idempotent_witness:
  "GetStory web_env_ok 1 101 web_logged_in
     = (Inr story_mine, \<lparr> loggedIn = True, sent = [GetStoryV5 1 101] \<rparr>)
   \<and> map o_UserID (s_Owners story_mine) = [7, 42]
   \<and> addOwner cfg_alice web_env_ok 101 1 42 web_logged_in
       = (Inr (s_Owners story_mine), \<lparr> loggedIn = True, sent = [GetStoryV5 1 101] \<rparr>)
   \<and> writes_sent \<lparr> loggedIn = True, sent = [GetStoryV5 1 101] \<rparr> = writes_sent web_logged_in
   \<and> WebAddOwner cfg_alice web_env_ok 1 101 42 web_logged_in
       = (Inr (s_Owners story_mine), \<lparr> loggedIn = True, sent = [GetStoryV5 1 101] \<rparr>)
   \<and> sent (snd (addOwner cfg_alice web_env_ok 101 1 99 web_logged_in))
       = [GetStoryV5 1 101, PutOwners 101 [7, 42, 99]]"
proof -
  let ?w1 = "\<lparr> loggedIn = True, sent = [GetStoryV5 1 101] \<rparr>"
  have g: "GetStory web_env_ok 1 101 web_logged_in = (Inr story_mine, ?w1)" by code_simp
  have o: "map o_UserID (s_Owners story_mine) = [7, 42]" by code_simp
  have m: "(42 :: int) \<in> set (map o_UserID (s_Owners story_mine))" using o by simp
  have n: "(99 :: int) \<notin> set (map o_UserID (s_Owners story_mine))
      \<and> we_NewRequest web_env_ok (PutOwners 101 (map o_UserID (s_Owners story_mine) @ [99])) = None"
    using o by (simp add: web_env_ok_def)
  have l: "ensureLoggedIn cfg_alice web_env_ok web_logged_in = (None, web_logged_in)"
    by code_simp
  have s0: "sent web_logged_in = []" by code_simp
  note th = addOwner_idempotent [of web_env_ok 1 101 web_logged_in story_mine ?w1 _ cfg_alice
      web_logged_in, rule_format, OF g]
  have a: "addOwner cfg_alice web_env_ok 101 1 42 web_logged_in = (Inr (s_Owners story_mine), ?w1)
      \<and> writes_sent ?w1 = writes_sent web_logged_in
      \<and> WebAddOwner cfg_alice web_env_ok 1 101 42 web_logged_in = (Inr (s_Owners story_mine), ?w1)"
    using th [of 42] m l by blast
  have b: "sent (snd (addOwner cfg_alice web_env_ok 101 1 99 web_logged_in))
      = sent web_logged_in @ [GetStoryV5 1 101,
          PutOwners 101 (map o_UserID (s_Owners story_mine) @ [99])]"
    using th [of 99] n by blast
  have b': "sent (snd (addOwner cfg_alice web_env_ok 101 1 99 web_logged_in))
      = [GetStoryV5 1 101, PutOwners 101 [7, 42, 99]]"
    using b by (simp add: s0 o)
  show ?thesis using g o a b' by blast
qed

text \<open>
  Claim C6. Each of the three write operations is wrapped the same way. When the first
  attempt fails with a message containing \<open>401\<close> or \<open>sign in\<close>, the session is marked
  unauthenticated and the login runs again; when that login succeeds the operation is
  attempted once more and the result of this second attempt, failure or success, is what
  the caller gets, with the session authenticated; when that login fails its error is
  what the caller gets. No call sends more than two write requests.
\<close>

theorem write_retry_policy:
  "retries_once cfg env (postComment cfg env sid text) (WebPostComment cfg env pid sid text)
   \<and> retries_once cfg env (addLabel cfg env sid pid name) (WebAddLabel cfg env pid sid name)
   \<and> retries_once cfg env (addOwner cfg env sid pid oid) (WebAddOwner cfg env pid sid oid)
   \<and> length (writes_sent (snd (WebPostComment cfg env pid sid text w)))
        \<le> length (writes_sent w) + 2
   \<and> length (writes_sent (snd (WebAddLabel cfg env pid sid name w)))
        \<le> length (writes_sent w) + 2
   \<and> length (writes_sent (snd (WebAddOwner cfg env pid sid oid w)))
        \<le> length (writes_sent w) + 2"
proof -
  have 1: "length (writes_sent (snd (WebPostComment cfg env pid sid text w)))
        \<le> length (writes_sent w) + 2"
    by (rule wrapper_writes [where attempt = "postComment cfg env sid text" and cfg = cfg and env = env,
          OF postComment_writes])
       (simp add: WebPostComment_def)
  have 2: "length (writes_sent (snd (WebAddLabel cfg env pid sid name w)))
        \<le> length (writes_sent w) + 2"
    by (rule wrapper_writes [where attempt = "addLabel cfg env sid pid name" and cfg = cfg and env = env,
          OF addLabel_writes])
       (simp add: WebAddLabel_def)
  have 3: "length (writes_sent (snd (WebAddOwner cfg env pid sid oid w)))
        \<le> length (writes_sent w) + 2"
    by (rule wrapper_writes [where attempt = "addOwner cfg env sid pid oid" and cfg = cfg and env = env,
          OF addOwner_writes])
       (simp add: WebAddOwner_def)
  show ?thesis
    using 1 2 3 retries_once_postComment [of cfg env sid "text" pid]
      retries_once_addLabel [of cfg env sid pid name] retries_once_addOwner [of cfg env sid pid oid]
    by blast
qed

theorem write_retry_policy_witness:
  "ensureLoggedIn cfg_alice web_env_expired web_logged_in = (None, web_logged_in)
   \<and> postComment cfg_alice web_env_expired 101 ''hi'' web_logged_in
       = (Inl ''post comment failed (status 401): Please sign in'',
          \<lparr> loggedIn = True, sent = [PostCommentReq 101 ''hi''] \<rparr>)
   \<and> session_expired ''post comment failed (status 401): Please sign in''
   \<and> ensureLoggedIn cfg_alice web_env_expired \<lparr> loggedIn = False, sent = [PostCommentReq 101 ''hi''] \<rparr>
       = (None, \<lparr> loggedIn = True, sent = [PostCommentReq 101 ''hi'', GetLoginPage,
                    PostLogin ''tok'' ''alice@example.org'' ''secret''] \<rparr>)
   \<and> WebPostComment cfg_alice web_env_expired 1 101 ''hi'' web_logged_in
       = (Inr \<lparr> c_ID = 0, c_Text = ''hi'', c_PersonID = 0, c_Person = None,
                c_CreatedAt = [], c_UpdatedAt = [] \<rparr>,
          \<lparr> loggedIn = True, sent = [PostCommentReq 101 ''hi'', GetLoginPage,
               PostLogin ''tok'' ''alice@example.org'' ''secret'', PostCommentReq 101 ''hi''] \<rparr>)
   \<and> addLabel cfg_alice web_env_expired 101 1 ''bug'' web_logged_in
       = (Inl ''add label failed (status 401): Please sign in'',
          \<lparr> loggedIn = True, sent = [PostLabelReq 101 1 ''bug''] \<rparr>)
   \<and> session_expired ''add label failed (status 401): Please sign in''
   \<and> WebAddLabel cfg_alice web_env_expired 1 101 ''bug'' web_logged_in
       = (Inr \<lparr> l_ID = 0, l_Name = ''bug'', l_Kind = [] \<rparr>,
          \<lparr> loggedIn = True, sent = [PostLabelReq 101 1 ''bug'', GetLoginPage,
               PostLogin ''tok'' ''alice@example.org'' ''secret'', PostLabelReq 101 1 ''bug''] \<rparr>)
   \<and> fst (addOwner cfg_alice web_env_expired 101 1 9 web_logged_in)
       = Inl (''fetch story owners: LiteTracker API 401: Status ''
              @ [CHR 0xE2, CHR 0x80, CHR 0x94] @ '' Please sign in'')
   \<and> WebAddOwner cfg_alice web_env_expired 1 101 9 web_logged_in
       = (Inr [owner_bob, owner_alice],
          \<lparr> loggedIn = True, sent = [GetStoryV5 1 101, GetLoginPage,
               PostLogin ''tok'' ''alice@example.org'' ''secret'', GetStoryV5 1 101,
               PutOwners 101 [7, 42, 9]] \<rparr>)"
proof -
  let ?w2 = "\<lparr> loggedIn = True, sent = [PostCommentReq 101 ''hi''] \<rparr>"
  let ?w3 = "\<lparr> loggedIn = True, sent = [PostCommentReq 101 ''hi'', GetLoginPage,
                    PostLogin ''tok'' ''alice@example.org'' ''secret''] \<rparr>"
  let ?l2 = "\<lparr> loggedIn = True, sent = [PostLabelReq 101 1 ''bug''] \<rparr>"
  let ?l3 = "\<lparr> loggedIn = True, sent = [PostLabelReq 101 1 ''bug'', GetLoginPage,
                    PostLogin ''tok'' ''alice@example.org'' ''secret''] \<rparr>"
  let ?o2 = "\<lparr> loggedIn = True, sent = [GetStoryV5 1 101] \<rparr>"
  let ?o3 = "\<lparr> loggedIn = True, sent = [GetStoryV5 1 101, GetLoginPage,
                    PostLogin ''tok'' ''alice@example.org'' ''secret''] \<rparr>"
  let ?oe = "''fetch story owners: LiteTracker API 401: Status ''
              @ [CHR 0xE2, CHR 0x80, CHR 0x94] @ '' Please sign in''"
  note th = write_retry_policy [of cfg_alice web_env_expired 101 "''hi''" 1 "''bug''" 9]
  have a: "ensureLoggedIn cfg_alice web_env_expired web_logged_in = (None, web_logged_in)"
    by code_simp
  have b: "postComment cfg_alice web_env_expired 101 ''hi'' web_logged_in
       = (Inl ''post comment failed (status 401): Please sign in'', ?w2)"
    by code_simp
  have c: "session_expired ''post comment failed (status 401): Please sign in''"
    by code_simp
  have d: "ensureLoggedIn cfg_alice web_env_expired (?w2\<lparr>loggedIn := False\<rparr>) = (None, ?w3)"
    by code_simp
  have e: "postComment cfg_alice web_env_expired 101 ''hi'' ?w3
       = (Inr \<lparr> c_ID = 0, c_Text = ''hi'', c_PersonID = 0, c_Person = None,
                c_CreatedAt = [], c_UpdatedAt = [] \<rparr>,
          \<lparr> loggedIn = True, sent = [PostCommentReq 101 ''hi'', GetLoginPage,
               PostLogin ''tok'' ''alice@example.org'' ''secret'', PostCommentReq 101 ''hi''] \<rparr>)"
    by code_simp
  have thc: "retries_once cfg_alice web_env_expired (postComment cfg_alice web_env_expired 101 ''hi'')
      (WebPostComment cfg_alice web_env_expired 1 101 ''hi'')"
    using th by blast
  have "case ensureLoggedIn cfg_alice web_env_expired (?w2\<lparr>loggedIn := False\<rparr>) of
          (Some err', w3) \<Rightarrow> WebPostComment cfg_alice web_env_expired 1 101 ''hi'' web_logged_in = (Inl err', w3)
        | (None, w3) \<Rightarrow> WebPostComment cfg_alice web_env_expired 1 101 ''hi'' web_logged_in
              = postComment cfg_alice web_env_expired 101 ''hi'' w3
            \<and> loggedIn (snd (postComment cfg_alice web_env_expired 101 ''hi'' w3))"
    by (rule thc [unfolded retries_once_def, rule_format, OF conjI [OF a conjI [OF b c]]])
  then have f: "WebPostComment cfg_alice web_env_expired 1 101 ''hi'' web_logged_in
      = postComment cfg_alice web_env_expired 101 ''hi'' ?w3"
    unfolding d by simp
  have d': "ensureLoggedIn cfg_alice web_env_expired \<lparr> loggedIn = False, sent = [PostCommentReq 101 ''hi''] \<rparr>
       = (None, ?w3)"
    using d by simp
  have lb: "addLabel cfg_alice web_env_expired 101 1 ''bug'' web_logged_in
       = (Inl ''add label failed (status 401): Please sign in'', ?l2)"
    by code_simp
  have lc: "session_expired ''add label failed (status 401): Please sign in''"
    by code_simp
  have ld: "ensureLoggedIn cfg_alice web_env_expired (?l2\<lparr>loggedIn := False\<rparr>) = (None, ?l3)"
    by code_simp
  have le: "addLabel cfg_alice web_env_expired 101 1 ''bug'' ?l3
       = (Inr \<lparr> l_ID = 0, l_Name = ''bug'', l_Kind = [] \<rparr>,
          \<lparr> loggedIn = True, sent = [PostLabelReq 101 1 ''bug'', GetLoginPage,
               PostLogin ''tok'' ''alice@example.org'' ''secret'', PostLabelReq 101 1 ''bug''] \<rparr>)"
    by code_simp
  have thl: "retries_once cfg_alice web_env_expired (addLabel cfg_alice web_env_expired 101 1 ''bug'')
      (WebAddLabel cfg_alice web_env_expired 1 101 ''bug'')"
    using th by blast
  have "case ensureLoggedIn cfg_alice web_env_expired (?l2\<lparr>loggedIn := False\<rparr>) of
          (Some err', w3) \<Rightarrow> WebAddLabel cfg_alice web_env_expired 1 101 ''bug'' web_logged_in = (Inl err', w3)
        | (None, w3) \<Rightarrow> WebAddLabel cfg_alice web_env_expired 1 101 ''bug'' web_logged_in
              = addLabel cfg_alice web_env_expired 101 1 ''bug'' w3
            \<and> loggedIn (snd (addLabel cfg_alice web_env_expired 101 1 ''bug'' w3))"
    by (rule thl [unfolded retries_once_def, rule_format, OF conjI [OF a conjI [OF lb lc]]])
  then have lf: "WebAddLabel cfg_alice web_env_expired 1 101 ''bug'' web_logged_in
      = addLabel cfg_alice web_env_expired 101 1 ''bug'' ?l3"
    unfolding ld by simp
  have ob: "addOwner cfg_alice web_env_expired 101 1 9 web_logged_in = (Inl ?oe, ?o2)"
    by code_simp
  have oc: "session_expired ?oe"
    by code_simp
  have od: "ensureLoggedIn cfg_alice web_env_expired (?o2\<lparr>loggedIn := False\<rparr>) = (None, ?o3)"
    by code_simp
  have oe: "addOwner cfg_alice web_env_expired 101 1 9 ?o3
       = (Inr [owner_bob, owner_alice],
          \<lparr> loggedIn = True, sent = [GetStoryV5 1 101, GetLoginPage,
               PostLogin ''tok'' ''alice@example.org'' ''secret'', GetStoryV5 1 101,
               PutOwners 101 [7, 42, 9]] \<rparr>)"
    by code_simp
  have tho: "retries_once cfg_alice web_env_expired (addOwner cfg_alice web_env_expired 101 1 9)
      (WebAddOwner cfg_alice web_env_expired 1 101 9)"
    using th by blast
  have "case ensureLoggedIn cfg_alice web_env_expired (?o2\<lparr>loggedIn := False\<rparr>) of
          (Some err', w3) \<Rightarrow> WebAddOwner cfg_alice web_env_expired 1 101 9 web_logged_in = (Inl err', w3)
        | (None, w3) \<Rightarrow> WebAddOwner cfg_alice web_env_expired 1 101 9 web_logged_in
              = addOwner cfg_alice web_env_expired 101 1 9 w3
            \<and> loggedIn (snd (addOwner cfg_alice web_env_expired 101 1 9 w3))"
    by (rule tho [unfolded retries_once_def, rule_format, OF conjI [OF a conjI [OF ob oc]]])
  then have "WebAddOwner cfg_alice web_env_expired 1 101 9 web_logged_in
      = addOwner cfg_alice web_env_expired 101 1 9 ?o3"
    unfolding od by simp
  then have og: "WebAddOwner cfg_alice web_env_expired 1 101 9 web_logged_in
       = (Inr [owner_bob, owner_alice],
          \<lparr> loggedIn = True, sent = [GetStoryV5 1 101, GetLoginPage,
               PostLogin ''tok'' ''alice@example.org'' ''secret'', GetStoryV5 1 101,
               PutOwners 101 [7, 42, 9]] \<rparr>)"
    unfolding oe .
  have ob': "fst (addOwner cfg_alice web_env_expired 101 1 9 web_logged_in) = Inl ?oe"
    unfolding ob by simp
  have p1: "WebPostComment cfg_alice web_env_expired 1 101 ''hi'' web_logged_in
       = (Inr \<lparr> c_ID = 0, c_Text = ''hi'', c_PersonID = 0, c_Person = None,
                c_CreatedAt = [], c_UpdatedAt = [] \<rparr>,
          \<lparr> loggedIn = True, sent = [PostCommentReq 101 ''hi'', GetLoginPage,
               PostLogin ''tok'' ''alice@example.org'' ''secret'', PostCommentReq 101 ''hi''] \<rparr>)"
    unfolding f e ..
  have p2: "WebAddLabel cfg_alice web_env_expired 1 101 ''bug'' web_logged_in
       = (Inr \<lparr> l_ID = 0, l_Name = ''bug'', l_Kind = [] \<rparr>,
          \<lparr> loggedIn = True, sent = [PostLabelReq 101 1 ''bug'', GetLoginPage,
               PostLogin ''tok'' ''alice@example.org'' ''secret'', PostLabelReq 101 1 ''bug''] \<rparr>)"
    unfolding lf le ..
  show ?thesis
    by (intro conjI) (rule a b c d' p1 lb lc p2 ob' og)+
qed


section \<open>Properties of the snapshot manager\<close>

lemma paths_differ:
  "snapPath cfg @ ''.tmp'' \<noteq> snapPath cfg"
  "dbPath cfg \<noteq> snapPath cfg"
  "dbPath cfg \<noteq> snapPath cfg @ ''.tmp''"
  by (simp_all add: dbPath_def snapPath_def pathJoin_def)

lemma Remove_other: "p \<noteq> q \<Longrightarrow> Remove ok p fs q = fs q"
  by (simp add: Remove_def)

text \<open>
  Claim C7. \<open>CreateSnapshot\<close> first removes the stale temporary file, then copies the
  checkpointed database to the temporary path and renames it onto the published path in
  one step. In every state the files pass through before the last step the published path
  holds what it held at the start; when \<open>CreateSnapshot\<close> returns an error (failed
  checkpoint, read, write with any part of the copy left behind, or rename) the published
  path still holds what it held at the start; when it returns no error the published path
  holds the whole content of the checkpointed database file and the temporary file is
  gone.
\<close>

theorem snapshot_atomic:
  "(se_Remove1_ok env \<longrightarrow> (snd (CreateSnapshot cfg env fs0) ! 1) (snapPath cfg @ ''.tmp'') = None)
   \<and> (\<forall>fs \<in> set (butlast (snd (CreateSnapshot cfg env fs0))).
         fs (snapPath cfg) = fs0 (snapPath cfg))
   \<and> (fst (CreateSnapshot cfg env fs0) \<noteq> None \<longrightarrow>
         last (snd (CreateSnapshot cfg env fs0)) (snapPath cfg) = fs0 (snapPath cfg))
   \<and> (fst (CreateSnapshot cfg env fs0) = None \<longrightarrow>
         (\<exists>data. se_Checkpoint env = Inr data
            \<and> last (snd (CreateSnapshot cfg env fs0)) (dbPath cfg) = Some data
            \<and> last (snd (CreateSnapshot cfg env fs0)) (snapPath cfg) = Some data
            \<and> last (snd (CreateSnapshot cfg env fs0)) (snapPath cfg @ ''.tmp'') = None))"
proof -
  note d = paths_differ [of cfg]
  have d': "snapPath cfg \<noteq> snapPath cfg @ ''.tmp''" "snapPath cfg \<noteq> dbPath cfg"
    "snapPath cfg @ ''.tmp'' \<noteq> dbPath cfg"
    using d by simp_all
  show ?thesis
    by (auto simp: CreateSnapshot_def Let_def ReadFile_def Remove_def Rename_def d d'
             split: sum.splits option.splits write_outcome.splits if_splits)
qed

theorem snapshot_atomic_witness:
  "se_Remove1_ok snap_env_cut
   \<and> files0 (snapPath cfg_alice) = Some ''DUCKDB pages 1''
   \<and> fst (CreateSnapshot cfg_alice snap_env_cut files0) = Some WriteTmpFailed
   \<and> (snd (CreateSnapshot cfg_alice snap_env_cut files0) ! 1) (snapPath cfg_alice @ ''.tmp'') = None
   \<and> last (snd (CreateSnapshot cfg_alice snap_env_cut files0)) (snapPath cfg_alice)
       = Some ''DUCKDB pages 1''
   \<and> fst (CreateSnapshot cfg_alice snap_env_ok files0) = None
   \<and> se_Checkpoint snap_env_ok = Inr ''DUCKDB pages 1 2 3''
   \<and> length (snd (CreateSnapshot cfg_alice snap_env_ok files0)) = 6
   \<and> (snd (CreateSnapshot cfg_alice snap_env_ok files0) ! 3) (snapPath cfg_alice)
       = Some ''DUCKDB pages 1''
   \<and> last (snd (CreateSnapshot cfg_alice snap_env_ok files0)) (snapPath cfg_alice)
       = Some ''DUCKDB pages 1 2 3''"
proof -
  let ?tr = "snd (CreateSnapshot cfg_alice snap_env_ok files0)"
  have r: "se_Remove1_ok snap_env_cut" by code_simp
  have f: "files0 (snapPath cfg_alice) = Some ''DUCKDB pages 1''" by code_simp
  have e: "fst (CreateSnapshot cfg_alice snap_env_cut files0) = Some WriteTmpFailed" by code_simp
  have n: "fst (CreateSnapshot cfg_alice snap_env_ok files0) = None" by code_simp
  have c: "se_Checkpoint snap_env_ok = Inr ''DUCKDB pages 1 2 3''" by code_simp
  have len: "length ?tr = 6" by code_simp
  note cut = snapshot_atomic [of snap_env_cut cfg_alice files0]
  note ok = snapshot_atomic [of snap_env_ok cfg_alice files0]
  have 1: "(snd (CreateSnapshot cfg_alice snap_env_cut files0) ! 1) (snapPath cfg_alice @ ''.tmp'') = None"
    using cut r by blast
  have "last (snd (CreateSnapshot cfg_alice snap_env_cut files0)) (snapPath cfg_alice)
      = files0 (snapPath cfg_alice)"
    using cut e by simp
  then have 2: "last (snd (CreateSnapshot cfg_alice snap_env_cut files0)) (snapPath cfg_alice)
      = Some ''DUCKDB pages 1''"
    using f by simp
  have "\<exists>data. se_Checkpoint snap_env_ok = Inr data
      \<and> last ?tr (snapPath cfg_alice) = Some data"
    using ok n by blast
  then have 3: "last ?tr (snapPath cfg_alice) = Some ''DUCKDB pages 1 2 3''"
    using c by auto
  have lb: "3 < length (butlast ?tr)" using len by simp
  then have "butlast ?tr ! 3 \<in> set (butlast ?tr)" by (rule nth_mem)
  moreover have "butlast ?tr ! 3 = ?tr ! 3" using lb by (rule nth_butlast)
  ultimately have m: "?tr ! 3 \<in> set (butlast ?tr)" by simp
  have "\<forall>fs \<in> set (butlast ?tr). fs (snapPath cfg_alice) = files0 (snapPath cfg_alice)"
    using ok by blast
  then have "(?tr ! 3) (snapPath cfg_alice) = files0 (snapPath cfg_alice)"
    using m by blast
  then have 4: "(?tr ! 3) (snapPath cfg_alice) = Some ''DUCKDB pages 1''"
    using f by simp
  show ?thesis using r f e n c len 1 2 3 4 by blast
qed

end
